theory Spec2Isabelle
  imports Main "HOL-Library.AList" "HOL-Library.Char_ord" "HOL-Library.List_Lexorder" "HOL-Library.Product_Lexorder"
begin

section \<open>Strings\<close>

text \<open>
  Python text and byte strings are both modelled as \<open>string\<close>, a list of 8-bit
  characters: a text is identified with its UTF-8 encoding, so \<open>str.encode("utf-8")\<close> is
  the identity. Character classes and case conversion are those of ASCII: on ASCII text
  Python's Unicode-aware \<open>\w\<close>, \<open>\d\<close> and \<open>str.lower\<close> coincide with them. A byte above
  \<open>0x7F\<close> is taken to be neither a letter nor a digit and \<open>lower\<close> leaves it unchanged,
  whereas Python lowers non-ASCII capitals and counts non-ASCII letters and digits as
  \<open>\w\<close>; the results below are stated for ASCII names and versions.
\<close>

definition lowers :: string where
  "lowers = ''abcdefghijklmnopqrstuvwxyz''"

definition uppers :: string where
  "uppers = ''ABCDEFGHIJKLMNOPQRSTUVWXYZ''"

definition digits :: string where
  "digits = ''0123456789''"

definition is_digit :: "char \<Rightarrow> bool" where
  "is_digit c = (c \<in> set digits)"

definition is_lower_alnum :: "char \<Rightarrow> bool" where
  \<comment> \<open>the class \<open>[a-z0-9]\<close>\<close>
  "is_lower_alnum c = (c \<in> set lowers \<or> c \<in> set digits)"

definition is_word :: "char \<Rightarrow> bool" where
  \<comment> \<open>the class \<open>\w\<close>: letters, digits and the underscore\<close>
  "is_word c = (c \<in> set lowers \<or> c \<in> set uppers \<or> c \<in> set digits \<or> c = CHR ''_'')"

definition lower_char :: "char \<Rightarrow> char" where
  "lower_char c = (case map_of (zip uppers lowers) c of Some l \<Rightarrow> l | None \<Rightarrow> c)"

definition lower :: "string \<Rightarrow> string" where
  \<comment> \<open>\<open>str.lower()\<close>\<close>
  "lower s = map lower_char s"

definition lstrip :: "string \<Rightarrow> string \<Rightarrow> string" where
  \<comment> \<open>\<open>s.lstrip(chars)\<close>\<close>
  "lstrip chars s = dropWhile (\<lambda>c. c \<in> set chars) s"

definition rstrip :: "string \<Rightarrow> string \<Rightarrow> string" where
  \<comment> \<open>\<open>s.rstrip(chars)\<close>\<close>
  "rstrip chars s = rev (dropWhile (\<lambda>c. c \<in> set chars) (rev s))"

definition strip :: "string \<Rightarrow> string \<Rightarrow> string" where
  \<comment> \<open>\<open>s.strip(chars)\<close>\<close>
  "strip chars s = rstrip chars (lstrip chars s)"

definition startswith :: "string \<Rightarrow> string \<Rightarrow> bool" where
  \<comment> \<open>\<open>s.startswith(p)\<close>\<close>
  "startswith s p = (take (length p) s = p)"

fun join :: "string \<Rightarrow> string list \<Rightarrow> string" where
  \<comment> \<open>\<open>sep.join(parts)\<close>\<close>
  "join s [] = []"
| "join s [x] = x"
| "join s (x # y # ys) = x @ s @ join s (y # ys)"

fun split_acc :: "char \<Rightarrow> string \<Rightarrow> string \<Rightarrow> string list" where
  "split_acc d acc [] = [rev acc]"
| "split_acc d acc (c # cs) =
     (if c = d then rev acc # split_acc d [] cs else split_acc d (c # acc) cs)"

definition split :: "char \<Rightarrow> string \<Rightarrow> string list" where
  \<comment> \<open>\<open>s.split(d)\<close> for a one-character separator: always at least one field\<close>
  "split d s = split_acc d [] s"

definition digit_char :: "nat \<Rightarrow> char" where
  "digit_char n = digits ! n"

function str_nat :: "nat \<Rightarrow> string" where
  \<comment> \<open>\<open>str(n)\<close> for a non-negative integer\<close>
  "str_nat n = (if n < 10 then [digit_char n] else str_nat (n div 10) @ [digit_char (n mod 10)])"
  by pat_completeness auto
termination
  by (relation "measure id") auto

declare str_nat.simps [simp del]

section \<open>Regular-expression substitution\<close>

text \<open>
  \<open>re.sub(r"[C]+", repl, s, count)\<close> for a character class \<open>C\<close>, given as the predicate
  \<open>P\<close>: scanning from the left, every maximal run of characters in the class is replaced
  by \<open>repl\<close>, until \<open>count\<close> replacements have been made; the rest of the string is then
  copied. \<open>None\<close> stands for Python's \<open>count=0\<close>, which means no limit.
\<close>

function sub_runs :: "(char \<Rightarrow> bool) \<Rightarrow> string \<Rightarrow> nat option \<Rightarrow> string \<Rightarrow> string" where
  "sub_runs P repl cnt [] = []"
| "sub_runs P repl cnt (c # cs) =
     (if P c \<and> cnt \<noteq> Some 0
      then repl @ sub_runs P repl (map_option (\<lambda>n. n - 1) cnt) (dropWhile P cs)
      else c # sub_runs P repl cnt cs)"
  by pat_completeness auto
termination
  by (relation "measure (\<lambda>(P, repl, cnt, s). length s)")
     (auto simp: length_dropWhile_le less_Suc_eq_le)

text \<open>
  \<open>re.sub(r"\{\w+\}", "0", s)\<close>: every brace pair that encloses one or more word
  characters is replaced by \<open>0\<close>. The closing brace is not a word character, so the
  greedy \<open>\w+\<close> never has to give characters back.
\<close>

function sub_placeholders :: "string \<Rightarrow> string" where
  "sub_placeholders [] = []"
| "sub_placeholders (c # cs) =
     (let w = takeWhile is_word cs; r = dropWhile is_word cs
      in if c = CHR ''{'' \<and> w \<noteq> [] \<and> r \<noteq> [] \<and> hd r = CHR ''}''
         then CHR ''0'' # sub_placeholders (tl r)
         else c # sub_placeholders cs)"
  by pat_completeness auto
termination
proof (relation "measure length")
  fix c :: char and cs w r :: string
  assume r: "r = dropWhile is_word cs"
    and c: "c = CHR ''{'' \<and> w \<noteq> [] \<and> r \<noteq> [] \<and> hd r = CHR ''}''"
  have "length (tl r) \<le> length r" by simp
  also have "\<dots> \<le> length cs" unfolding r by (rule length_dropWhile_le)
  finally show "(tl r, c # cs) \<in> measure length" by simp
qed auto

section \<open>Name and version normalisation\<close>

datatype error =
    InvalidVersion
  | ValueError
  | TypeError
  | AttributeError
  | FileNotFoundError string
  | IsADirectoryError string
  | UnicodeDecodeError
  | OSError
  | ReError

text \<open>
  \<open>escape_filename_segment\<close> calls \<open>re.sub(r"[^\w\d.]+", "_", segment, re.UNICODE)\<close>.
  The fourth positional parameter of \<open>re.sub\<close> is \<open>count\<close>, and \<open>re.UNICODE\<close> is the
  integer 32, so the call limits the number of replacements to 32.
\<close>

definition re_UNICODE :: nat where
  "re_UNICODE = 32"

definition escape_filename_segment :: "string \<Rightarrow> string" where
  "escape_filename_segment segment =
     sub_runs (\<lambda>c. \<not> (is_word c \<or> is_digit c \<or> c = CHR ''.'')) ''_'' (Some re_UNICODE) segment"

definition normalize_package_name :: "string \<Rightarrow> string" where
  "normalize_package_name name = lower (sub_runs (\<lambda>c. c \<in> set ''-_.'') ''-'' None name)"

definition replace_char :: "char \<Rightarrow> char \<Rightarrow> string \<Rightarrow> string" where
  \<comment> \<open>\<open>s.replace(a, b)\<close> for one-character strings\<close>
  "replace_char a b s = map (\<lambda>c. if c = a then b else c) s"

definition escape_filename_distribution_name :: "string \<Rightarrow> string" where
  "escape_filename_distribution_name name =
     replace_char (CHR ''-'') (CHR ''_'') (normalize_package_name name)"

text \<open>
  \<open>normalize_pep440\<close> relies on \<open>packaging.version.Version\<close>, a library outside the
  repository. The parameter \<open>V\<close> stands for \<open>lambda s: str(packaging.version.Version(s))\<close>,
  with \<open>None\<close> for the exception \<open>InvalidVersion\<close>.
\<close>

definition sanitized :: "string \<Rightarrow> string" where
  "sanitized version = strip ''.'' (sub_runs (\<lambda>c. \<not> is_lower_alnum c) ''.'' None (lower version))"

definition substituted :: "string \<Rightarrow> string" where
  "substituted version = sub_placeholders version"

definition delimiter :: "string \<Rightarrow> string" where
  "delimiter version = (if CHR ''+'' \<in> set (substituted version) then ''.'' else ''+'')"

definition normalize_pep440 :: "(string \<Rightarrow> string option) \<Rightarrow> string \<Rightarrow> error + string" where
  "normalize_pep440 V version =
     (case V version of
        Some s \<Rightarrow> Inr s
      | None \<Rightarrow>
          (case V (substituted version @ delimiter version @ sanitized version) of
             Some s \<Rightarrow> Inr s
           | None \<Rightarrow>
               (case V (''0+'' @ sanitized version) of
                  Some s \<Rightarrow> Inr s
                | None \<Rightarrow> Inl InvalidVersion)))"

section \<open>The runtime environment\<close>

text \<open>
  A file-system node is a regular file, with its content and the modification time and
  permission bits that \<open>stat\<close> would report, or a directory with its named children in
  the order \<open>os.listdir\<close> returns them. Directories form a finite tree.
\<close>

datatype fsnode =
    File (content: string) (mtime: nat) (mode: nat)
  | Dir "(string \<times> fsnode) list"

text \<open>
  What the program takes from the Python runtime and its libraries:
  \<^item> \<open>sha256\<close>: the digest \<open>hashlib.sha256(data).digest()\<close>;
  \<^item> \<open>Version\<close>: \<open>str(packaging.version.Version(s))\<close>, \<open>None\<close> for \<open>InvalidVersion\<close>;
  \<^item> \<open>sep\<close>, \<open>altsep\<close>: \<open>os.path.sep\<close> and \<open>os.path.altsep\<close>;
  \<^item> \<open>re_template\<close>: how \<open>re.sub\<close> compiles a replacement string that contains a
    backslash, giving the replacement as a function of the matched text or an error;
  \<^item> \<open>node_at\<close>: the node found at a path; the node at \<open>"{}/{}".format(d, child)\<close> is the
    child of the directory at \<open>d\<close>;
  \<^item> \<open>close_error\<close>: the exception, if any, that \<open>ZipFile.close()\<close> raises when it writes
    the central directory of the archive (for instance \<open>OSError\<close> on a full disk). The
    writes of the members and of the name file are taken to succeed; a write that fails
    would end the run at that statement.
\<close>

record env =
  sha256 :: "string \<Rightarrow> string"
  Version :: "string \<Rightarrow> string option"
  sep :: char
  altsep :: "char option"
  re_template :: "string \<Rightarrow> error + (string \<Rightarrow> string)"
  node_at :: "string \<Rightarrow> fsnode option"
  close_error :: "error option"

definition nl :: string where
  "nl = [CHR 0x0A]"

definition backslash :: char where
  "backslash = CHR 0x5C"

section \<open>Digest encoding\<close>

definition b64_alphabet :: string where
  \<comment> \<open>the URL-safe alphabet of \<open>base64.urlsafe_b64encode\<close>\<close>
  "b64_alphabet = uppers @ lowers @ digits @ ''-_''"

definition b64_char :: "nat \<Rightarrow> char" where
  "b64_char n = b64_alphabet ! (n mod 64)"

fun b64_groups :: "nat list \<Rightarrow> string" where
  "b64_groups [] = []"
| "b64_groups [a] = [b64_char (a div 4), b64_char ((a mod 4) * 16), CHR ''='', CHR ''='']"
| "b64_groups [a, b] =
     [b64_char (a div 4), b64_char ((a mod 4) * 16 + b div 16), b64_char ((b mod 16) * 4),
      CHR ''='']"
| "b64_groups (a # b # c # r) =
     [b64_char (a div 4), b64_char ((a mod 4) * 16 + b div 16),
      b64_char ((b mod 16) * 4 + c div 64), b64_char (c mod 64)] @ b64_groups r"

definition urlsafe_b64encode :: "string \<Rightarrow> string" where
  "urlsafe_b64encode bs = b64_groups (map of_char bs)"

section \<open>The archive writer\<close>

record zipinfo =
  filename :: string
  date_time :: "nat \<times> nat \<times> nat \<times> nat \<times> nat \<times> nat"
  create_system :: nat
  external_attr :: nat
  compress_type :: nat

definition ZIP_EPOCH :: "nat \<times> nat \<times> nat \<times> nat \<times> nat \<times> nat" where
  "ZIP_EPOCH = (1980, 1, 1, 0, 0, 0)"

definition ZIP_DEFLATED :: nat where
  "ZIP_DEFLATED = 8"

text \<open>
  The \<open>_WhlFile\<close> object: its own attributes, and of the underlying \<open>zipfile.ZipFile\<close>
  the members written so far (header and uncompressed content, in the order written) and
  whether the archive has been closed.
\<close>

record whl =
  distinfo_dir :: string
  strip_path_prefixes :: "string list"
  record_entries :: "(string \<times> string \<times> string) list"
  compression :: nat
  members :: "(zipinfo \<times> string) list"
  closed :: bool

definition is_sep :: "env \<Rightarrow> char \<Rightarrow> bool" where
  "is_sep E c = (c = sep E \<or> altsep E = Some c)"

definition path_name :: "env \<Rightarrow> string \<Rightarrow> string" where
  \<comment> \<open>\<open>Path(p).name\<close>: the last component, empty and \<open>.\<close> components dropped
      (drive prefixes are not modelled)\<close>
  "path_name E p =
     (case filter (\<lambda>c. c \<noteq> [] \<and> c \<noteq> ''.'')
             (split (CHR ''/'') (map (\<lambda>c. if is_sep E c then CHR ''/'' else c) p)) of
        [] \<Rightarrow> []
      | c # cs \<Rightarrow> last (c # cs))"

definition WhlFile :: "env \<Rightarrow> string \<Rightarrow> string list \<Rightarrow> whl" where
  \<comment> \<open>\<open>_WhlFile.__init__\<close> with \<open>mode="w"\<close>\<close>
  "WhlFile E distinfo prefixes =
     \<lparr>distinfo_dir = path_name E distinfo, strip_path_prefixes = prefixes,
      record_entries = [], compression = ZIP_DEFLATED, members = [], closed = False\<rparr>"

definition distinfo_path :: "whl \<Rightarrow> string \<Rightarrow> string" where
  "distinfo_path w basename = distinfo_dir w @ ''/'' @ basename"

fun strip_prefix :: "string \<Rightarrow> string list \<Rightarrow> string" where
  \<comment> \<open>the \<open>for prefix in self._strip_path_prefixes\<close> loop of \<open>arcname_from\<close>\<close>
  "strip_prefix n [] = n"
| "strip_prefix n (p # ps) = (if startswith n p then drop (length p) n else strip_prefix n ps)"

definition arcname_from :: "env \<Rightarrow> whl \<Rightarrow> string \<Rightarrow> string" where
  "arcname_from E w name =
     (let normalized_arcname = replace_char (sep E) (CHR ''/'') name
      in if startswith normalized_arcname (distinfo_dir w) then normalized_arcname
         else strip_prefix normalized_arcname (strip_path_prefixes w))"

definition separators :: "env \<Rightarrow> string" where
  "separators E = sep E # (case altsep E of None \<Rightarrow> [] | Some a \<Rightarrow> [a])"

definition zipinfo :: "env \<Rightarrow> whl \<Rightarrow> string \<Rightarrow> zipinfo" where
  \<comment> \<open>\<open>_WhlFile._zipinfo\<close>\<close>
  "zipinfo E w fname =
     \<lparr>filename = lstrip (separators E) fname, date_time = ZIP_EPOCH, create_system = 3,
      external_attr = push_bit 16 (0x1FF :: nat), compress_type = compression w\<rparr>"

definition serialize_digest :: "env \<Rightarrow> string \<Rightarrow> string" where
  \<comment> \<open>\<open>_WhlFile._serialize_digest\<close>, of a hash object that has been fed the bytes \<open>fed\<close>\<close>
  "serialize_digest E fed = ''sha256='' @ rstrip ''='' (urlsafe_b64encode (sha256 E fed))"

definition add_to_record :: "whl \<Rightarrow> string \<Rightarrow> string \<Rightarrow> nat \<Rightarrow> whl" where
  "add_to_record w fname hash n =
     w\<lparr>record_entries := record_entries w @ [(fname, hash, str_nat n)]\<rparr>"

text \<open>
  The copy loop of \<open>add_file\<close>: blocks of at most \<open>2**20\<close> bytes are read until a read
  returns nothing; each block is written to the member, fed to the hash and counted.
\<close>

function copy_blocks :: "string \<Rightarrow> string \<times> string \<times> nat \<Rightarrow> string \<times> string \<times> nat" where
  "copy_blocks fsrc (fdst, fed, n) =
     (let block = take (2 ^ 20) fsrc
      in if block = [] then (fdst, fed, n)
         else copy_blocks (drop (2 ^ 20) fsrc) (fdst @ block, fed @ block, n + length block))"
  by pat_completeness auto
termination
  by (relation "measure (\<lambda>(fsrc, acc). length fsrc)") auto

declare copy_blocks.simps [simp del]

definition write_member :: "whl \<Rightarrow> zipinfo \<Rightarrow> string \<Rightarrow> whl" where
  \<comment> \<open>a member written through \<open>ZipFile.open(zinfo, "w")\<close> or \<open>ZipFile.writestr\<close>\<close>
  "write_member w zinfo data = w\<lparr>members := members w @ [(zinfo, data)]\<rparr>"

definition add_leaf :: "env \<Rightarrow> whl \<Rightarrow> string \<Rightarrow> string \<Rightarrow> whl" where
  \<comment> \<open>\<open>add_file\<close> for a regular file with the bytes \<open>fsrc\<close>\<close>
  "add_leaf E w package_filename fsrc =
     (let arcname = arcname_from E w package_filename;
          zinfo = zipinfo E w arcname;
          (fdst, fed, n) = copy_blocks fsrc ([], [], 0)
      in add_to_record (write_member w zinfo fdst) arcname (serialize_digest E fed) n)"

fun add_node :: "env \<Rightarrow> string \<Rightarrow> fsnode \<Rightarrow> whl \<Rightarrow> whl"
  and add_children :: "env \<Rightarrow> string \<Rightarrow> (string \<times> fsnode) list \<Rightarrow> whl \<Rightarrow> whl" where
  "add_node E package_filename (File c mt mo) w = add_leaf E w package_filename c"
| "add_node E package_filename (Dir children) w = add_children E package_filename children w"
| "add_children E package_filename [] w = w"
| "add_children E package_filename (child # children) w =
     add_children E package_filename children
       (add_node E (package_filename @ ''/'' @ fst child) (snd child) w)"

definition add_file :: "env \<Rightarrow> whl \<Rightarrow> string \<Rightarrow> string \<Rightarrow> error + whl" where
  "add_file E w package_filename real_filename =
     (case node_at E real_filename of
        None \<Rightarrow> Inl (FileNotFoundError real_filename)
      | Some node \<Rightarrow> Inr (add_node E package_filename node w))"

definition add_string :: "env \<Rightarrow> whl \<Rightarrow> string \<Rightarrow> string \<Rightarrow> whl" where
  "add_string E w fname contents =
     add_to_record (write_member w (zipinfo E w fname) contents) fname
       (serialize_digest E contents) (length contents)"

definition record_line :: "string \<times> string \<times> string \<Rightarrow> string" where
  \<comment> \<open>one iteration of the loop of \<open>add_recordfile\<close>\<close>
  "record_line e = (case e of (fname, digest, sz) \<Rightarrow>
     lstrip ''/'' fname @ '','' @ digest @ '','' @ sz @ nl)"

definition record_contents :: "whl \<Rightarrow> string" where
  "record_contents w =
     concat (map record_line (record_entries w @ [(distinfo_path w ''RECORD'', [], [])]))"

definition add_recordfile :: "env \<Rightarrow> whl \<Rightarrow> whl" where
  "add_recordfile E w = add_string E w (distinfo_path w ''RECORD'') (record_contents w)"

section \<open>The wheel maker\<close>

record maker =
  m_name :: string
  m_version :: string
  m_build_tag :: string
  m_python_tag :: string
  m_abi :: string
  m_platform :: string
  m_outfile :: "string option"
  m_strip_path_prefixes :: "string list"
  m_escaped_version :: string
  m_distinfo_dir :: string
  m_wheelname_fragment_distribution_name :: string

definition truthy :: "string option \<Rightarrow> bool" where
  \<comment> \<open>the truth value of an optional string: \<open>None\<close> and \<open>""\<close> are false\<close>
  "truthy s = (case s of None \<Rightarrow> False | Some t \<Rightarrow> t \<noteq> [])"

definition WheelMaker ::
  "env \<Rightarrow> string \<Rightarrow> string \<Rightarrow> string \<Rightarrow> string \<Rightarrow> string \<Rightarrow> string \<Rightarrow> string option \<Rightarrow>
   string list \<Rightarrow> bool \<Rightarrow> bool \<Rightarrow> error + maker" where
  \<comment> \<open>\<open>WheelMaker.__init__\<close>\<close>
  "WheelMaker E name version build_tag python_tag abi platform outfile prefixes
     incompatible_normalize_name incompatible_normalize_version =
     (case (if incompatible_normalize_version
            then map_sum id (\<lambda>v. (v, v)) (normalize_pep440 (Version E) version)
            else Inr (version, escape_filename_segment version)) of
        Inl e \<Rightarrow> Inl e
      | Inr (version', escaped_version) \<Rightarrow>
          Inr \<lparr>m_name = name, m_version = version', m_build_tag = build_tag,
               m_python_tag = python_tag, m_abi = abi, m_platform = platform,
               m_outfile = outfile, m_strip_path_prefixes = prefixes,
               m_escaped_version = escaped_version,
               m_distinfo_dir =
                 (if incompatible_normalize_name
                  then escape_filename_distribution_name name
                  else escape_filename_segment name) @ ''-'' @ escaped_version @ ''.dist-info/'',
               m_wheelname_fragment_distribution_name =
                 (if incompatible_normalize_name
                  then escape_filename_distribution_name name
                  else name)\<rparr>)"

definition wheelname :: "maker \<Rightarrow> string" where
  "wheelname m =
     join ''-'' ([m_wheelname_fragment_distribution_name m, m_version m]
                 @ (if m_build_tag m \<noteq> [] then [m_build_tag m] else [])
                 @ [m_python_tag m, m_abi m, m_platform m]) @ ''.whl''"

definition maker_filename :: "maker \<Rightarrow> string" where
  \<comment> \<open>\<open>WheelMaker.filename\<close>\<close>
  "maker_filename m = (if truthy (m_outfile m) then the (m_outfile m) else wheelname m)"

definition disttags :: "maker \<Rightarrow> string list" where
  "disttags m = [join ''-'' [m_python_tag m, m_abi m, m_platform m]]"

definition enter :: "env \<Rightarrow> maker \<Rightarrow> whl" where
  \<comment> \<open>\<open>WheelMaker.__enter__\<close>: the archive that is opened\<close>
  "enter E m = WhlFile E (m_distinfo_dir m) (m_strip_path_prefixes m)"

definition wheel_contents :: "maker \<Rightarrow> string" where
  "wheel_contents m =
     ''Wheel-Version: 1.0'' @ nl @ ''Generator: bazel-wheelmaker 1.0'' @ nl
     @ ''Root-Is-Purelib: '' @ (if m_platform m = ''any'' then ''true'' else ''false'') @ nl
     @ concat (map (\<lambda>tag. ''Tag: '' @ tag @ nl) (disttags m))"

definition add_wheelfile :: "env \<Rightarrow> maker \<Rightarrow> whl \<Rightarrow> whl" where
  "add_wheelfile E m w = add_string E w (distinfo_path w ''WHEEL'') (wheel_contents m)"

text \<open>
  \<open>re.sub("^Name: .*$", "Name: %s" % name, metadata, flags=re.MULTILINE)\<close>. With
  \<open>re.MULTILINE\<close> the anchors match at the start and the end of every line, and \<open>.\<close> matches
  everything but the newline, so a match is a whole line that starts with \<open>Name: \<close>; no
  \<open>count\<close> is given, so every such line is replaced. The replacement string is a template:
  without a backslash it stands for itself.
\<close>

definition compile_repl :: "env \<Rightarrow> string \<Rightarrow> error + (string \<Rightarrow> string)" where
  "compile_repl E repl = (if backslash \<in> set repl then re_template E repl else Inr (\<lambda>matched. repl))"

definition sub_name_lines :: "(string \<Rightarrow> string) \<Rightarrow> string \<Rightarrow> string" where
  "sub_name_lines f metadata =
     join nl (map (\<lambda>line. if startswith line ''Name: '' then f line else line)
                  (split (CHR 0x0A) metadata))"

definition metadata_contents ::
  "env \<Rightarrow> string \<Rightarrow> string \<Rightarrow> string option \<Rightarrow> string \<Rightarrow> error + string" where
  \<comment> \<open>the text that \<open>add_metadata\<close> builds\<close>
  "metadata_contents E metadata name description version =
     (case compile_repl E (''Name: '' @ name) of
        Inl e \<Rightarrow> Inl e
      | Inr f \<Rightarrow>
          Inr (sub_name_lines f metadata @ ''Version: '' @ version @ nl @ nl
               @ (if truthy description then the description else ''UNKNOWN'') @ nl))"

definition add_metadata ::
  "env \<Rightarrow> whl \<Rightarrow> string \<Rightarrow> string \<Rightarrow> string option \<Rightarrow> string \<Rightarrow> error + whl" where
  "add_metadata E w metadata name description version =
     map_sum id (add_string E w (distinfo_path w ''METADATA''))
       (metadata_contents E metadata name description version)"

section \<open>The command-line program\<close>

fun get_files_loop ::
  "(string \<times> string) list \<Rightarrow> string list list \<Rightarrow> error + (string \<times> string) list" where
  "get_files_loop files [] = Inr files"
| "get_files_loop files ([package_path, real_path] # input_files) =
     get_files_loop (AList.update package_path real_path files) input_files"
| "get_files_loop files (_ # input_files) = Inl ValueError"

definition get_files_to_package :: "string list list \<Rightarrow> error + (string \<times> string) list" where
  \<comment> \<open>the dictionary \<open>files\<close>, as its items in insertion order; unpacking an entry that has
      not exactly two fields raises \<open>ValueError\<close>\<close>
  "get_files_to_package input_files = get_files_loop [] input_files"

text \<open>
  The parsed command line. Stamp substitution is done: \<open>arg_name\<close> and \<open>arg_version\<close> are
  the resolved strings. \<open>arg_input_file\<close> holds the \<open>package_path;real_path\<close> entries of
  \<open>--input_file\<close> followed by the lines of the \<open>--input_file_list\<close> files.
\<close>

record arguments =
  arg_name :: string
  arg_version :: string
  arg_build_tag :: string
  arg_python_tag :: string
  arg_abi :: string
  arg_platform :: string
  arg_out :: "string option"
  arg_name_file :: "string option"
  arg_strip_path_prefix :: "string list"
  arg_metadata_file :: "string option"
  arg_description_file :: "string option"
  arg_entry_points_file :: "string option"
  arg_input_file :: "string list"
  arg_extra_distinfo_file :: "string list"
  arg_noincompatible_normalize_name :: bool
  arg_noincompatible_normalize_version :: bool

text \<open>
  Files are read in text mode with \<open>encoding="utf-8"\<close>: the bytes must be well-formed
  UTF-8 (no overlong forms, no surrogates, nothing above U+10FFFF), else
  \<open>UnicodeDecodeError\<close> is raised, and every \<open>\r\n\<close> and every remaining \<open>\r\<close> is read as
  \<open>\n\<close>. Text is kept as its UTF-8 bytes, which is what \<open>add_string\<close> writes back.
\<close>

definition in_range :: "nat \<Rightarrow> nat \<Rightarrow> nat \<Rightarrow> bool" where
  "in_range lo hi b = (lo \<le> b \<and> b \<le> hi)"

fun utf8_valid :: "nat list \<Rightarrow> bool" where
  "utf8_valid [] = True"
| "utf8_valid (b # bs) =
     (if b < 0x80 then utf8_valid bs
      else if in_range 0xC2 0xDF b then
        (case bs of
           b1 # r \<Rightarrow> in_range 0x80 0xBF b1 \<and> utf8_valid r
         | _ \<Rightarrow> False)
      else if in_range 0xE0 0xEF b then
        (case bs of
           b1 # b2 # r \<Rightarrow>
             in_range (if b = 0xE0 then 0xA0 else 0x80) (if b = 0xED then 0x9F else 0xBF) b1
             \<and> in_range 0x80 0xBF b2 \<and> utf8_valid r
         | _ \<Rightarrow> False)
      else if in_range 0xF0 0xF4 b then
        (case bs of
           b1 # b2 # b3 # r \<Rightarrow>
             in_range (if b = 0xF0 then 0x90 else 0x80) (if b = 0xF4 then 0x8F else 0xBF) b1
             \<and> in_range 0x80 0xBF b2 \<and> in_range 0x80 0xBF b3 \<and> utf8_valid r
         | _ \<Rightarrow> False)
      else False)"

fun universal_newlines :: "string \<Rightarrow> string" where
  "universal_newlines [] = []"
| "universal_newlines [c] = [if c = CHR 0x0D then CHR 0x0A else c]"
| "universal_newlines (c # d # cs) =
     (if c = CHR 0x0D \<and> d = CHR 0x0A then CHR 0x0A # universal_newlines cs
      else if c = CHR 0x0D then CHR 0x0A # universal_newlines (d # cs)
      else c # universal_newlines (d # cs))"

definition read_text :: "env \<Rightarrow> string \<Rightarrow> error + string" where
  \<comment> \<open>\<open>open(path, "rt", encoding="utf-8").read()\<close>\<close>
  "read_text E path =
     (case node_at E path of
        None \<Rightarrow> Inl (FileNotFoundError path)
      | Some (Dir children) \<Rightarrow> Inl (IsADirectoryError path)
      | Some (File c mt mo) \<Rightarrow>
          if utf8_valid (map of_char c) then Inr (universal_newlines c)
          else Inl UnicodeDecodeError)"

text \<open>
  A run of \<open>main\<close> is observed through the archive it writes (\<open>None\<close> until
  \<open>__enter__\<close> opens it), the text written to the name file, and the sequence of its
  effects on the two, in the order they happen.
\<close>

datatype event =
    Open string
  | AddFile string
  | AddWheelfile
  | AddMetadata
  | AddRecordfile
  | WriteNameFile string
  | Close

record run =
  archive :: whl
  name_file_text :: "string option"
  events :: "event list"

type_synonym step = "run \<Rightarrow> error option \<times> run"

fun steps :: "step list \<Rightarrow> step" where
  \<comment> \<open>statements in sequence: the first exception ends the sequence\<close>
  "steps [] r = (None, r)"
| "steps (f # fs) r = (case f r of (None, r') \<Rightarrow> steps fs r' | (Some e, r') \<Rightarrow> (Some e, r'))"

definition on_archive :: "event \<Rightarrow> (whl \<Rightarrow> error + whl) \<Rightarrow> step" where
  "on_archive ev f r =
     (case f (archive r) of
        Inl e \<Rightarrow> (Some e, r)
      | Inr w \<Rightarrow> (None, r\<lparr>archive := w, events := events r @ [ev]\<rparr>))"

definition maker_add_file :: "env \<Rightarrow> string \<Rightarrow> string \<Rightarrow> step" where
  \<comment> \<open>\<open>maker.add_file(package_filename, real_filename)\<close>\<close>
  "maker_add_file E package_filename real_filename =
     on_archive (AddFile package_filename) (\<lambda>w. add_file E w package_filename real_filename)"

definition add_metadata_step :: "env \<Rightarrow> arguments \<Rightarrow> step" where
  \<comment> \<open>reading the description and the metadata, then \<open>maker.add_metadata\<close>\<close>
  "add_metadata_step E A =
     on_archive AddMetadata (\<lambda>w.
       case (if truthy (arg_description_file A)
             then map_sum id Some (read_text E (the (arg_description_file A)))
             else Inr None) of
         Inl e \<Rightarrow> Inl e
       | Inr description \<Rightarrow>
           (case (case arg_metadata_file A of
                    None \<Rightarrow> Inl TypeError
                  | Some path \<Rightarrow> read_text E path) of
              Inl e \<Rightarrow> Inl e
            | Inr metadata \<Rightarrow>
                (case (if arg_noincompatible_normalize_version A then Inr (arg_version A)
                       else normalize_pep440 (Version E) (arg_version A)) of
                   Inl e \<Rightarrow> Inl e
                 | Inr version_in_metadata \<Rightarrow>
                     add_metadata E w metadata (arg_name A) description version_in_metadata)))"

definition extra_distinfo_step :: "env \<Rightarrow> string list \<Rightarrow> step" where
  \<comment> \<open>one iteration of \<open>for filename, real_path in sorted(extra_distinfo_file)\<close>\<close>
  "extra_distinfo_step E entry r =
     (case entry of
        [fname, real_path] \<Rightarrow> maker_add_file E (distinfo_path (archive r) fname) real_path r
      | _ \<Rightarrow> (Some ValueError, r))"

definition write_name_file :: "arguments \<Rightarrow> maker \<Rightarrow> step" where
  \<comment> \<open>\<open>arguments.name_file.write_text(maker.wheelname())\<close>\<close>
  "write_name_file A m r =
     (case arg_name_file A of
        None \<Rightarrow> (Some AttributeError, r)
      | Some path \<Rightarrow>
          (None, r\<lparr>name_file_text := Some (wheelname m),
                   events := events r @ [WriteNameFile (wheelname m)]\<rparr>))"

definition body :: "env \<Rightarrow> arguments \<Rightarrow> maker \<Rightarrow> (string \<times> string) list \<Rightarrow> step" where
  \<comment> \<open>the body of the \<open>with\<close> statement\<close>
  "body E A m all_files =
     steps
       (map (\<lambda>(package_filename, real_filename). maker_add_file E package_filename real_filename)
            all_files
        @ [on_archive AddWheelfile (\<lambda>w. Inr (add_wheelfile E m w)),
           add_metadata_step E A]
        @ (if truthy (arg_entry_points_file A)
           then [\<lambda>r. maker_add_file E (distinfo_path (archive r) ''entry_points.txt'')
                        (the (arg_entry_points_file A)) r]
           else [])
        @ map (extra_distinfo_step E) (sort (map (split (CHR '';'')) (arg_extra_distinfo_file A)))
        @ [on_archive AddRecordfile (\<lambda>w. Inr (add_recordfile E w)),
           write_name_file A m])"

definition exit :: "env \<Rightarrow> step" where
  \<comment> \<open>\<open>WheelMaker.__exit__\<close>, which runs however the body ends: \<open>self._whlfile.close()\<close>
      may raise\<close>
  "exit E r =
     (close_error E, r\<lparr>archive := (archive r)\<lparr>closed := True\<rparr>, events := events r @ [Close]\<rparr>)"

definition main :: "env \<Rightarrow> arguments \<Rightarrow> error option \<times> run option" where
  \<comment> \<open>an exception raised by \<open>__exit__\<close> replaces the outcome of the body; otherwise the
      exception of the body, if any, is raised again\<close>
  "main E A =
     (case get_files_to_package (map (split (CHR '';'')) (arg_input_file A)) of
        Inl e \<Rightarrow> (Some e, None)
      | Inr files \<Rightarrow>
          (case WheelMaker E (arg_name A) (arg_version A) (arg_build_tag A) (arg_python_tag A)
                  (arg_abi A) (arg_platform A) (arg_out A) (arg_strip_path_prefix A)
                  (\<not> arg_noincompatible_normalize_name A)
                  (\<not> arg_noincompatible_normalize_version A) of
             Inl e \<Rightarrow> (Some e, None)
           | Inr m \<Rightarrow>
               (case body E A m (sort files)
                       \<lparr>archive = enter E m, name_file_text = None,
                        events = [Open (maker_filename m)]\<rparr> of
                  (result, r) \<Rightarrow>
                    (case exit E r of
                       (None, r') \<Rightarrow> (result, Some r')
                     | (Some e, r') \<Rightarrow> (Some e, Some r')))))"

section \<open>A model of the version library\<close>

text \<open>
  \<open>packaging.version.Version\<close> matches its argument against the pattern
  \<^verbatim>\<open>
  ^\s* v?
       (?:(?P<epoch>[0-9]+)!)?
       (?P<release>[0-9]+(?:\.[0-9]+)*)
       (?P<pre>[-_\.]?(?P<pre_l>(a|b|c|rc|alpha|beta|pre|preview))[-_\.]?(?P<pre_n>[0-9]+)?)?
       (?P<post>(?:-(?P<post_n1>[0-9]+))|(?:[-_\.]?(?P<post_l>post|rev|r)[-_\.]?(?P<post_n2>[0-9]+)?))?
       (?P<dev>[-_\.]?(?P<dev_l>dev)[-_\.]?(?P<dev_n>[0-9]+)?)?
       (?:\+(?P<local>[a-z0-9]+(?:[-_\.][a-z0-9]+)*))?
  \s*$
  \<close>
  ignoring case, and \<open>str\<close> prints the parsed version in canonical form. The pattern is
  matched here from left to right without backtracking: every optional part is taken when
  it matches, the longest spelling of a pre-release or post-release tag is taken, and
  digits are taken as far as they go. This finds the match of the pattern whenever there
  is one, because no part of the pattern can start with what a preceding part would give
  back.
\<close>

record pep440 =
  epoch :: nat
  release :: "nat list"
  pre :: "(string \<times> nat) option"
  post :: "nat option"
  dev :: "nat option"
  local_version :: "string list option"

definition is_space :: "char \<Rightarrow> bool" where
  \<comment> \<open>the class \<open>\s\<close>\<close>
  "is_space c = (c \<in> set [CHR 0x09, CHR 0x0A, CHR 0x0B, CHR 0x0C, CHR 0x0D,
                           CHR 0x1C, CHR 0x1D, CHR 0x1E, CHR 0x1F, CHR 0x20])"

definition is_vsep :: "char \<Rightarrow> bool" where
  \<comment> \<open>the class \<open>[-_\.]\<close>\<close>
  "is_vsep c = (c \<in> set ''-_.'')"

definition digit_val :: "char \<Rightarrow> nat" where
  "digit_val c = of_char c - 48"

definition int_of_digits :: "string \<Rightarrow> nat" where
  \<comment> \<open>\<open>int(ds)\<close> for a string of digits; the empty string stands for an absent number,
      which the library reads as 0\<close>
  "int_of_digits ds = foldl (\<lambda>a c. 10 * a + digit_val c) 0 ds"

definition skip_sep :: "string \<Rightarrow> string" where
  \<comment> \<open>\<open>[-_\.]?\<close>\<close>
  "skip_sep s = (case s of [] \<Rightarrow> [] | c # cs \<Rightarrow> if is_vsep c then cs else s)"

definition parse_epoch :: "string \<Rightarrow> nat \<times> string" where
  "parse_epoch s =
     (let d = takeWhile is_digit s; r = dropWhile is_digit s
      in if d \<noteq> [] \<and> r \<noteq> [] \<and> hd r = CHR ''!'' then (int_of_digits d, tl r) else (0, s))"

function release_tail :: "string \<Rightarrow> nat list \<times> string" where
  \<comment> \<open>\<open>(?:\.[0-9]+)*\<close>\<close>
  "release_tail s =
     (case s of
        c # d # cs \<Rightarrow>
          if c = CHR ''.'' \<and> is_digit d
          then (case release_tail (dropWhile is_digit cs) of
                  (ns, r) \<Rightarrow> (int_of_digits (d # takeWhile is_digit cs) # ns, r))
          else ([], s)
      | _ \<Rightarrow> ([], s))"
  by pat_completeness auto
termination
  by (relation "measure length") (auto simp: length_dropWhile_le less_Suc_eq_le le_SucI)

declare release_tail.simps [simp del]

definition parse_release :: "string \<Rightarrow> (nat list \<times> string) option" where
  "parse_release s =
     (let d = takeWhile is_digit s
      in if d = [] then None
         else (case release_tail (dropWhile is_digit s) of
                 (ns, r) \<Rightarrow> Some (int_of_digits d # ns, r)))"

fun match_tag :: "(string \<times> string) list \<Rightarrow> string \<Rightarrow> (string \<times> string) option" where
  \<comment> \<open>the first spelling that the string starts with: its normal form and what follows\<close>
  "match_tag [] s = None"
| "match_tag ((spelling, normal) # tags) s =
     (if startswith s spelling then Some (normal, drop (length spelling) s)
      else match_tag tags s)"

definition tag_number :: "string \<Rightarrow> nat \<times> string" where
  \<comment> \<open>\<open>[-_\.]?([0-9]+)?\<close> after a tag\<close>
  "tag_number s =
     (let t = skip_sep s in (int_of_digits (takeWhile is_digit t), dropWhile is_digit t))"

definition pre_tags :: "(string \<times> string) list" where
  "pre_tags = [(''alpha'', ''a''), (''beta'', ''b''), (''preview'', ''rc''), (''a'', ''a''),
               (''b'', ''b''), (''c'', ''rc''), (''rc'', ''rc''), (''pre'', ''rc'')]"

definition parse_pre :: "string \<Rightarrow> (string \<times> nat) option \<times> string" where
  "parse_pre s =
     (case match_tag pre_tags (skip_sep s) of
        None \<Rightarrow> (None, s)
      | Some (letter, t) \<Rightarrow> (case tag_number t of (n, r) \<Rightarrow> (Some (letter, n), r)))"

definition post_tags :: "(string \<times> string) list" where
  "post_tags = [(''post'', ''post''), (''rev'', ''post''), (''r'', ''post'')]"

definition parse_post :: "string \<Rightarrow> nat option \<times> string" where
  "parse_post s =
     (case s of
        c # d # cs \<Rightarrow>
          if c = CHR ''-'' \<and> is_digit d
          then (Some (int_of_digits (d # takeWhile is_digit cs)), dropWhile is_digit cs)
          else (case match_tag post_tags (skip_sep s) of
                  None \<Rightarrow> (None, s)
                | Some (letter, t) \<Rightarrow> (case tag_number t of (n, r) \<Rightarrow> (Some n, r)))
      | _ \<Rightarrow>
          (case match_tag post_tags (skip_sep s) of
             None \<Rightarrow> (None, s)
           | Some (letter, t) \<Rightarrow> (case tag_number t of (n, r) \<Rightarrow> (Some n, r))))"

definition parse_dev :: "string \<Rightarrow> nat option \<times> string" where
  "parse_dev s =
     (case match_tag [(''dev'', ''dev'')] (skip_sep s) of
        None \<Rightarrow> (None, s)
      | Some (letter, t) \<Rightarrow> (case tag_number t of (n, r) \<Rightarrow> (Some n, r)))"

definition local_part :: "string \<Rightarrow> string" where
  \<comment> \<open>a part of the local version: an integer if it is all digits\<close>
  "local_part part = (if list_all is_digit part then str_nat (int_of_digits part) else part)"

function local_parts :: "string \<Rightarrow> string list option" where
  \<comment> \<open>\<open>[a-z0-9]+(?:[-_\.][a-z0-9]+)*\<close> up to the end of the string\<close>
  "local_parts s =
     (let a = takeWhile is_lower_alnum s; r = dropWhile is_lower_alnum s
      in if a = [] then None
         else (case r of
                 [] \<Rightarrow> Some [local_part a]
               | c # cs \<Rightarrow>
                   if is_vsep c then map_option (Cons (local_part a)) (local_parts cs)
                   else None))"
  by pat_completeness auto
termination
proof (relation "measure length")
  fix s a r :: string and c :: char and cs :: string
  assume "r = dropWhile is_lower_alnum s" and "r = c # cs"
  then have "length (c # cs) \<le> length s"
    by (metis length_dropWhile_le)
  then show "(cs, s) \<in> measure length" by simp
qed auto

declare local_parts.simps [simp del]

definition parse_local :: "string \<Rightarrow> string list option option" where
  \<comment> \<open>the optional local version and the end of the string\<close>
  "parse_local s =
     (case s of
        [] \<Rightarrow> Some None
      | c # cs \<Rightarrow> if c = CHR ''+'' then map_option Some (local_parts cs) else None)"

definition parse_version :: "string \<Rightarrow> pep440 option" where
  "parse_version version =
     (let s = lower version;
          s = dropWhile is_space s;
          s = rev (dropWhile is_space (rev s));
          s = (case s of [] \<Rightarrow> [] | c # cs \<Rightarrow> if c = CHR ''v'' then cs else s);
          (e, s) = parse_epoch s
      in case parse_release s of
           None \<Rightarrow> None
         | Some (rel, s) \<Rightarrow>
             (let (p, s) = parse_pre s; (po, s) = parse_post s; (d, s) = parse_dev s
              in case parse_local s of
                   None \<Rightarrow> None
                 | Some l \<Rightarrow>
                     Some \<lparr>epoch = e, release = rel, pre = p, post = po, dev = d,
                           local_version = l\<rparr>))"

definition str_epoch :: "nat \<Rightarrow> string" where
  "str_epoch e = (if e \<noteq> 0 then str_nat e @ ''!'' else [])"

definition str_release :: "nat list \<Rightarrow> string" where
  "str_release rel = join ''.'' (map str_nat rel)"

definition str_pre :: "(string \<times> nat) option \<Rightarrow> string" where
  "str_pre p = (case p of None \<Rightarrow> [] | Some (letter, n) \<Rightarrow> letter @ str_nat n)"

definition str_post :: "nat option \<Rightarrow> string" where
  "str_post po = (case po of None \<Rightarrow> [] | Some n \<Rightarrow> ''.post'' @ str_nat n)"

definition str_dev :: "nat option \<Rightarrow> string" where
  "str_dev d = (case d of None \<Rightarrow> [] | Some n \<Rightarrow> ''.dev'' @ str_nat n)"

definition str_local :: "string list option \<Rightarrow> string" where
  "str_local l = (case l of None \<Rightarrow> [] | Some parts \<Rightarrow> ''+'' @ join ''.'' parts)"

definition str_version :: "pep440 \<Rightarrow> string" where
  \<comment> \<open>\<open>Version.__str__\<close>\<close>
  "str_version v =
     str_epoch (epoch v) @ str_release (release v) @ str_pre (pre v) @ str_post (post v)
     @ str_dev (dev v) @ str_local (local_version v)"

definition pep440_str :: "string \<Rightarrow> string option" where
  \<comment> \<open>\<open>str(packaging.version.Version(s))\<close>\<close>
  "pep440_str s = map_option str_version (parse_version s)"

section \<open>The record invariant\<close>

text \<open>
  The invariant that ties the archive to the record: the \<open>i\<close>-th member was written
  under the header that \<open>_zipinfo\<close> builds for the name of the \<open>i\<close>-th record entry,
  and that entry holds the digest and the size of the member's bytes.
\<close>

definition recorded :: "env \<Rightarrow> whl \<Rightarrow> zipinfo \<times> string \<Rightarrow> string \<times> string \<times> string \<Rightarrow> bool" where
  "recorded E w m e =
     (fst m = zipinfo E w (fst e) \<and> fst (snd e) = serialize_digest E (snd m)
      \<and> snd (snd e) = str_nat (length (snd m)))"

definition well_recorded :: "env \<Rightarrow> whl \<Rightarrow> bool" where
  "well_recorded E w = list_all2 (recorded E w) (members w) (record_entries w)"

section \<open>Steps that only add to a run\<close>

text \<open>
  A step of \<open>main\<close> is quiet when it leaves the name file alone and logs neither a
  close nor a write of the name file.
\<close>

definition quiet :: "step \<Rightarrow> bool" where
  "quiet f = (\<forall>r res r'. f r = (res, r') \<longrightarrow>
     name_file_text r' = name_file_text r
     \<and> (\<exists>evs. events r' = events r @ evs \<and> Close \<notin> set evs
                \<and> (\<forall>n. WriteNameFile n \<notin> set evs)))"

text \<open>
  An archive has grown when members and record entries have only been appended, and a run
  extends another when its archive has grown and its log has only been appended to.
\<close>

definition grown :: "whl \<Rightarrow> whl \<Rightarrow> bool" where
  "grown w w' =
     ((\<exists>ms. members w' = members w @ ms) \<and> (\<exists>es. record_entries w' = record_entries w @ es))"

definition extends :: "run \<Rightarrow> run \<Rightarrow> bool" where
  "extends r r' = (grown (archive r) (archive r') \<and> (\<exists>evs. events r' = events r @ evs))"

definition same_settings :: "whl \<Rightarrow> whl \<Rightarrow> bool" where
  "same_settings w w' =
     (compression w' = compression w \<and> distinfo_dir w' = distinfo_dir w
      \<and> strip_path_prefixes w' = strip_path_prefixes w)"

section \<open>What a source contributes to the archive\<close>

text \<open>
  An input entry pairs an archive path with the path of its source. When the source is a
  regular file, \<open>add_file\<close> writes one member for the entry, with the bytes of the
  source, and one record entry.
\<close>

definition is_file :: "env \<Rightarrow> string \<Rightarrow> bool" where
  "is_file E path = (case node_at E path of Some (File c mt mo) \<Rightarrow> True | _ \<Rightarrow> False)"

definition file_member :: "env \<Rightarrow> whl \<Rightarrow> string \<times> string \<Rightarrow> zipinfo \<times> string" where
  "file_member E w entry =
     (zipinfo E w (arcname_from E w (fst entry)), content (the (node_at E (snd entry))))"

definition file_entry :: "env \<Rightarrow> whl \<Rightarrow> string \<times> string \<Rightarrow> string \<times> string \<times> string" where
  "file_entry E w entry =
     (arcname_from E w (fst entry),
      serialize_digest E (content (the (node_at E (snd entry)))),
      str_nat (length (content (the (node_at E (snd entry))))))"



section \<open>Well-formed versions\<close>




section \<open>A worked example\<close>

text \<open>
  One run of the program, used to evaluate the properties below on concrete data. Two input
  entries name the same archive path \<open>a/b/c.txt\<close>; the strip prefixes are \<open>a/b\<close> and
  \<open>a\<close>; the raw metadata has two \<open>Name:\<close> lines. The digest function of the example
  is a stand-in that returns the first four bytes of its argument.
\<close>

definition example_raw_metadata :: string where
  "example_raw_metadata = ''Name: x'' @ nl @ ''Name: y'' @ nl"

definition example_env :: env where
  "example_env =
     \<lparr>sha256 = take 4, Version = pep440_str, sep = CHR ''/'', altsep = None,
      re_template = (\<lambda>repl. Inl ReError),
      node_at = map_of
        [(''src/one'', File ''one'' 1700000000 420),
         (''src/two'', File ''two'' 1700000001 384),
         (''META'', File example_raw_metadata 1700000002 420)],
      close_error = None\<rparr>"

definition example_args :: arguments where
  "example_args =
     \<lparr>arg_name = ''My.Pkg'', arg_version = ''1.0-beta'', arg_build_tag = [],
      arg_python_tag = ''py3'', arg_abi = ''none'', arg_platform = ''any'', arg_out = None,
      arg_name_file = Some ''name.txt'', arg_strip_path_prefix = [''a/b'', ''a''],
      arg_metadata_file = Some ''META'', arg_description_file = None,
      arg_entry_points_file = None,
      arg_input_file = [''a/b/c.txt;src/one'', ''a/b/c.txt;src/two''],
      arg_extra_distinfo_file = [], arg_noincompatible_normalize_name = False,
      arg_noincompatible_normalize_version = False\<rparr>"

definition example_maker :: maker where
  "example_maker =
     \<lparr>m_name = ''My.Pkg'', m_version = ''1.0b0'', m_build_tag = [], m_python_tag = ''py3'',
      m_abi = ''none'', m_platform = ''any'', m_outfile = None,
      m_strip_path_prefixes = [''a/b'', ''a''], m_escaped_version = ''1.0b0'',
      m_distinfo_dir = ''my_pkg-1.0b0.dist-info/'',
      m_wheelname_fragment_distribution_name = ''my_pkg''\<rparr>"

definition example_header :: "string \<Rightarrow> zipinfo" where
  "example_header fname =
     \<lparr>filename = fname, date_time = (1980, 1, 1, 0, 0, 0), create_system = 3,
      external_attr = 33488896, compress_type = 8\<rparr>"

definition example_wheel :: string where
  "example_wheel =
     ''Wheel-Version: 1.0'' @ nl @ ''Generator: bazel-wheelmaker 1.0'' @ nl
     @ ''Root-Is-Purelib: true'' @ nl @ ''Tag: py3-none-any'' @ nl"

definition example_metadata :: string where
  "example_metadata =
     ''Name: My.Pkg'' @ nl @ ''Name: My.Pkg'' @ nl @ ''Version: 1.0b0'' @ nl @ nl
     @ ''UNKNOWN'' @ nl"

definition example_record :: string where
  "example_record =
     ''c.txt,sha256=dHdv,3'' @ nl
     @ ''my_pkg-1.0b0.dist-info/WHEEL,sha256=V2hlZQ,91'' @ nl
     @ ''my_pkg-1.0b0.dist-info/METADATA,sha256=TmFtZQ,50'' @ nl
     @ ''my_pkg-1.0b0.dist-info/RECORD,,'' @ nl"

definition example_members :: "(zipinfo \<times> string) list" where
  "example_members =
     [(example_header ''c.txt'', ''two''),
      (example_header ''my_pkg-1.0b0.dist-info/WHEEL'', example_wheel),
      (example_header ''my_pkg-1.0b0.dist-info/METADATA'', example_metadata),
      (example_header ''my_pkg-1.0b0.dist-info/RECORD'', example_record)]"

definition example_entries :: "(string \<times> string \<times> string) list" where
  "example_entries =
     [(''/c.txt'', ''sha256=dHdv'', ''3''),
      (''my_pkg-1.0b0.dist-info/WHEEL'', ''sha256=V2hlZQ'', ''91''),
      (''my_pkg-1.0b0.dist-info/METADATA'', ''sha256=TmFtZQ'', ''50''),
      (''my_pkg-1.0b0.dist-info/RECORD'', ''sha256=Yy50eA'', ''147'')]"

definition example_events :: "event list" where
  "example_events =
     [Open ''my_pkg-1.0b0-py3-none-any.whl'', AddFile ''a/b/c.txt'', AddWheelfile, AddMetadata,
      AddRecordfile, WriteNameFile ''my_pkg-1.0b0-py3-none-any.whl'', Close]"

definition example_archive :: "nat \<Rightarrow> bool \<Rightarrow> whl" where
  \<comment> \<open>the archive of the example when \<open>k\<close> members have been written\<close>
  "example_archive k c =
     \<lparr>distinfo_dir = ''my_pkg-1.0b0.dist-info'', strip_path_prefixes = [''a/b'', ''a''],
      record_entries = take k example_entries, compression = 8,
      members = take k example_members, closed = c\<rparr>"

definition example_run :: run where
  "example_run =
     \<lparr>archive = example_archive 4 True,
      name_file_text = Some ''my_pkg-1.0b0-py3-none-any.whl'', events = example_events\<rparr>"

section \<open>The archive operations, unfolded\<close>

lemma copy_blocks_eq: "copy_blocks fsrc (fdst, fed, n) = (fdst @ fsrc, fed @ fsrc, n + length fsrc)"
proof (induction fsrc "(fdst, fed, n)" arbitrary: fdst fed n rule: copy_blocks.induct)
  case (1 fsrc fdst fed n)
  show ?case
  proof (cases "take (2 ^ 20) fsrc = []")
    case True
    then have "fsrc = []" by simp
    then show ?thesis by (simp add: copy_blocks.simps)
  next
    case False
    have "copy_blocks fsrc (fdst, fed, n) =
          copy_blocks (drop (2 ^ 20) fsrc)
            (fdst @ take (2 ^ 20) fsrc, fed @ take (2 ^ 20) fsrc, n + length (take (2 ^ 20) fsrc))"
      using False by (subst copy_blocks.simps) (simp add: Let_def)
    also have "\<dots> = ((fdst @ take (2 ^ 20) fsrc) @ drop (2 ^ 20) fsrc,
                       (fed @ take (2 ^ 20) fsrc) @ drop (2 ^ 20) fsrc,
                       (n + length (take (2 ^ 20) fsrc)) + length (drop (2 ^ 20) fsrc))"
      using False by (intro "1.hyps") simp_all
    also have "\<dots> = (fdst @ fsrc, fed @ fsrc, n + length fsrc)"
      by (simp del: length_take length_drop add: length_append [symmetric])
    finally show ?thesis .
  qed
qed

lemma zipinfo_eq:
  "zipinfo E w fname =
     \<lparr>filename = lstrip (separators E) fname, date_time = (1980, 1, 1, 0, 0, 0), create_system = 3,
      external_attr = 33488896, compress_type = compression w\<rparr>"
  by (simp add: zipinfo_def ZIP_EPOCH_def)

lemma add_string_eq:
  "add_string E w fname contents =
     w\<lparr>members := members w @ [(zipinfo E w fname, contents)],
       record_entries := record_entries w
          @ [(fname, serialize_digest E contents, str_nat (length contents))]\<rparr>"
  by (simp add: add_string_def add_to_record_def write_member_def)

lemma add_leaf_eq:
  "add_leaf E w package_filename fsrc =
     w\<lparr>members := members w @ [(zipinfo E w (arcname_from E w package_filename), fsrc)],
       record_entries := record_entries w
          @ [(arcname_from E w package_filename, serialize_digest E fsrc, str_nat (length fsrc))]\<rparr>"
  by (simp add: add_leaf_def copy_blocks_eq Let_def add_to_record_def write_member_def)

section \<open>The example run, evaluated\<close>

lemma example_version: "normalize_pep440 pep440_str ''1.0-beta'' = Inr ''1.0b0''"
  by code_simp

lemma example_name: "escape_filename_distribution_name ''My.Pkg'' = ''my_pkg''"
  by code_simp

lemma example_env_simps:
  "Version example_env = pep440_str" "sep example_env = CHR ''/''" "altsep example_env = None"
  "node_at example_env ''src/two'' = Some (File ''two'' 1700000001 384)"
  "node_at example_env ''META'' = Some (File example_raw_metadata 1700000002 420)"
  "close_error example_env = None"
  by (simp_all add: example_env_def)

lemma example_read: "read_text example_env ''META'' = Inr example_raw_metadata"
  by (simp add: read_text_def example_env_simps example_raw_metadata_def nl_def in_range_def)

lemma example_args_simps:
  "arg_name example_args = ''My.Pkg''" "arg_version example_args = ''1.0-beta''"
  "arg_build_tag example_args = []" "arg_python_tag example_args = ''py3''"
  "arg_abi example_args = ''none''" "arg_platform example_args = ''any''"
  "arg_out example_args = None" "arg_name_file example_args = Some ''name.txt''"
  "arg_strip_path_prefix example_args = [''a/b'', ''a'']"
  "arg_metadata_file example_args = Some ''META''" "arg_description_file example_args = None"
  "arg_entry_points_file example_args = None"
  "arg_input_file example_args = [''a/b/c.txt;src/one'', ''a/b/c.txt;src/two'']"
  "arg_extra_distinfo_file example_args = []"
  "arg_noincompatible_normalize_name example_args = False"
  "arg_noincompatible_normalize_version example_args = False"
  by (simp_all add: example_args_def)

lemma example_digests:
  "serialize_digest example_env ''two'' = ''sha256=dHdv''"
  "serialize_digest example_env example_wheel = ''sha256=V2hlZQ''"
  "serialize_digest example_env example_metadata = ''sha256=TmFtZQ''"
  "serialize_digest example_env example_record = ''sha256=Yy50eA''"
  by (simp_all add: serialize_digest_def example_env_def urlsafe_b64encode_def rstrip_def
        b64_char_def b64_alphabet_def uppers_def lowers_def digits_def
        example_wheel_def example_metadata_def example_record_def)

lemma example_lengths:
  "length ''two'' = 3" "length example_wheel = 91" "length example_metadata = 50"
  "length example_record = 147"
  by (simp_all add: example_wheel_def example_metadata_def example_record_def nl_def)

lemma example_sizes:
  "str_nat (length ''two'') = ''3''" "str_nat (length example_wheel) = ''91''"
  "str_nat (length example_metadata) = ''50''" "str_nat (length example_record) = ''147''"
  unfolding example_lengths by (simp_all add: str_nat.simps digit_char_def digits_def)

lemma example_WheelMaker:
  "WheelMaker example_env (arg_name example_args) (arg_version example_args)
     (arg_build_tag example_args) (arg_python_tag example_args) (arg_abi example_args)
     (arg_platform example_args) (arg_out example_args) (arg_strip_path_prefix example_args)
     (\<not> arg_noincompatible_normalize_name example_args)
     (\<not> arg_noincompatible_normalize_version example_args) = Inr example_maker"
  by (simp add: WheelMaker_def example_env_simps example_args_simps example_version example_name
        example_maker_def)

lemma example_files:
  "get_files_to_package (map (split (CHR '';'')) (arg_input_file example_args))
     = Inr [(''a/b/c.txt'', ''src/two'')]"
  by (simp add: get_files_to_package_def split_def example_args_simps)

lemma example_wheelname: "wheelname example_maker = ''my_pkg-1.0b0-py3-none-any.whl''"
  by (simp add: wheelname_def example_maker_def)

lemma example_enter: "enter example_env example_maker = example_archive 0 False"
  by (simp add: enter_def WhlFile_def example_maker_def path_name_def split_def is_sep_def
        example_env_simps ZIP_DEFLATED_def example_archive_def)

lemma lstrip_example [simp]:
  "lstrip (separators example_env) s = dropWhile (\<lambda>c. c = CHR ''/'') s"
  by (simp add: lstrip_def separators_def example_env_simps)

lemma example_arcname:
  "arcname_from example_env (example_archive 0 False) ''a/b/c.txt'' = ''/c.txt''"
  by (simp add: arcname_from_def replace_char_def startswith_def example_env_simps
        example_archive_def Let_def)

lemma example_add_file:
  "add_file example_env (example_archive 0 False) ''a/b/c.txt'' ''src/two''
     = Inr (example_archive 1 False)"
  by (simp add: add_file_def example_env_simps add_leaf_eq example_arcname zipinfo_eq
        example_digests example_sizes del: list.size(4) length_Cons)
     (simp add: example_archive_def example_members_def example_entries_def example_header_def)

lemma example_wheel_contents: "wheel_contents example_maker = example_wheel"
  by (simp add: wheel_contents_def example_maker_def disttags_def example_wheel_def)

lemma example_add_wheelfile:
  "add_wheelfile example_env example_maker (example_archive 1 False) = example_archive 2 False"
  by (simp add: add_wheelfile_def add_string_eq example_wheel_contents
        distinfo_path_def zipinfo_eq example_archive_def example_digests example_sizes
        example_members_def example_entries_def example_header_def)

lemma example_metadata_contents:
  "metadata_contents example_env example_raw_metadata ''My.Pkg'' None ''1.0b0''
     = Inr example_metadata"
  by (simp add: example_raw_metadata_def metadata_contents_def compile_repl_def backslash_def sub_name_lines_def split_def
        startswith_def truthy_def nl_def example_metadata_def)

lemma example_add_metadata:
  "add_metadata example_env (example_archive 2 False) example_raw_metadata
     ''My.Pkg'' None ''1.0b0'' = Inr (example_archive 3 False)"
  by (simp add: add_metadata_def example_metadata_contents add_string_eq
        distinfo_path_def zipinfo_eq example_archive_def example_digests example_sizes
        example_members_def example_entries_def example_header_def)

lemma example_record_contents: "record_contents (example_archive 3 False) = example_record"
  by (simp add: record_contents_def record_line_def distinfo_path_def example_archive_def
        example_entries_def lstrip_def example_record_def)

lemma example_add_recordfile:
  "add_recordfile example_env (example_archive 3 False) = example_archive 4 False"
  by (simp add: add_recordfile_def example_record_contents add_string_eq
        distinfo_path_def zipinfo_eq example_digests example_sizes)
     (simp add: example_archive_def example_members_def example_entries_def example_header_def)

lemma example_filename: "maker_filename example_maker = ''my_pkg-1.0b0-py3-none-any.whl''"
  by (simp add: maker_filename_def truthy_def wheelname_def example_maker_def)

lemma example_body:
  "body example_env example_args example_maker [(''a/b/c.txt'', ''src/two'')]
     \<lparr>archive = example_archive 0 False, name_file_text = None,
      events = [Open ''my_pkg-1.0b0-py3-none-any.whl'']\<rparr>
   = (None, \<lparr>archive = example_archive 4 False,
              name_file_text = Some ''my_pkg-1.0b0-py3-none-any.whl'',
              events = take 6 example_events\<rparr>)"
  by (simp del: One_nat_def
        add: body_def example_args_simps truthy_def maker_add_file_def on_archive_def
        example_add_file example_add_wheelfile add_metadata_step_def example_read
        example_env_simps example_version example_add_metadata example_add_recordfile
        write_name_file_def example_wheelname example_events_def)

lemma example_main: "main example_env example_args = (None, Some example_run)"
  by (simp add: main_def example_files example_WheelMaker example_enter example_body
        example_filename)
     (simp add: exit_def example_env_simps example_run_def example_archive_def
        example_events_def)

section \<open>Every run keeps the record invariant\<close>

lemma zipinfo_compression:
  "compression w' = compression w \<Longrightarrow> zipinfo E w' fname = zipinfo E w fname"
  by (simp add: zipinfo_def)

lemma recorded_compression:
  "compression w' = compression w \<Longrightarrow> recorded E w' = recorded E w"
  by (intro ext) (simp add: recorded_def zipinfo_def)

lemma add_string_fields [simp]:
  "compression (add_string E w f c) = compression w"
  "distinfo_dir (add_string E w f c) = distinfo_dir w"
  "strip_path_prefixes (add_string E w f c) = strip_path_prefixes w"
  "closed (add_string E w f c) = closed w"
  by (simp_all add: add_string_eq)

lemma add_leaf_fields [simp]:
  "compression (add_leaf E w p c) = compression w"
  "distinfo_dir (add_leaf E w p c) = distinfo_dir w"
  "strip_path_prefixes (add_leaf E w p c) = strip_path_prefixes w"
  "closed (add_leaf E w p c) = closed w"
  by (simp_all add: add_leaf_eq)

lemma well_recorded_add_string:
  "well_recorded E w \<Longrightarrow> well_recorded E (add_string E w f c)"
  unfolding well_recorded_def
  by (simp add: recorded_compression [of "add_string E w f c" w])
     (simp add: add_string_eq list_all2_appendI recorded_def)

lemma well_recorded_add_leaf:
  "well_recorded E w \<Longrightarrow> well_recorded E (add_leaf E w p c)"
  unfolding well_recorded_def
  by (simp add: recorded_compression [of "add_leaf E w p c" w])
     (simp add: add_leaf_eq list_all2_appendI recorded_def)

lemma well_recorded_add_node:
  "well_recorded E w \<Longrightarrow> well_recorded E (add_node E p node w)"
  "well_recorded E w \<Longrightarrow> well_recorded E (add_children E p children w)"
  by (induction E p node w and E p children w rule: add_node_add_children.induct)
     (simp_all add: well_recorded_add_leaf)

lemma well_recorded_add_file:
  "add_file E w p real = Inr w' \<Longrightarrow> well_recorded E w \<Longrightarrow> well_recorded E w'"
  by (auto simp: add_file_def well_recorded_add_node split: option.splits)

lemma well_recorded_add_metadata:
  "add_metadata E w md name d v = Inr w' \<Longrightarrow> well_recorded E w \<Longrightarrow> well_recorded E w'"
  by (cases "metadata_contents E md name d v")
     (auto simp: add_metadata_def well_recorded_add_string)

text \<open>A property that every step keeps is kept by the body of the \<open>with\<close> statement and by \<open>main\<close>.\<close>

lemma steps_preserve:
  assumes "\<And>f r res r'. f \<in> set fs \<Longrightarrow> f r = (res, r') \<Longrightarrow> P r \<Longrightarrow> P r'"
    and "steps fs r = (res, r')" and "P r"
  shows "P r'"
  using assms
proof (induction fs arbitrary: r)
  case Nil
  then show ?case by simp
next
  case (Cons f fs)
  obtain res1 r1 where f: "f r = (res1, r1)" by (cases "f r")
  have P1: "P r1" using Cons.prems(1) [of f r res1 r1] f Cons.prems(3) by simp
  show ?case
  proof (cases res1)
    case None
    with f Cons.prems(2) have s: "steps fs r1 = (res, r')" by simp
    have "P r'" if "g \<in> set fs" "g r = (res, r')" "P r" for g r res r'
      using Cons.prems(1) [of g r res r'] that by simp
    then show ?thesis using s P1 by (rule Cons.IH)
  next
    case (Some e)
    with f Cons.prems(2) have "r' = r1" by simp
    then show ?thesis using P1 by simp
  qed
qed

lemma on_archive_preserves:
  assumes "\<And>w w'. f w = Inr w' \<Longrightarrow> I w \<Longrightarrow> I w'"
    and "on_archive ev f r = (res, r')" and "I (archive r)"
  shows "I (archive r')"
  using assms by (cases "f (archive r)") (auto simp: on_archive_def)

lemma body_preserves:
  assumes add_file: "\<And>w w' p real. add_file E w p real = Inr w' \<Longrightarrow> I w \<Longrightarrow> I w'"
    and add_string: "\<And>w f c. I w \<Longrightarrow> I (add_string E w f c)"
    and body: "body E A m all_files r = (res, r')" and I: "I (archive r)"
  shows "I (archive r')"
proof (rule steps_preserve [where P = "\<lambda>r. I (archive r)", OF _ body [unfolded body_def] I])
  fix f r res r'
  assume f: "f \<in> set
      (map (\<lambda>(package_filename, real_filename). maker_add_file E package_filename real_filename)
            all_files
        @ [on_archive AddWheelfile (\<lambda>w. Inr (add_wheelfile E m w)),
           add_metadata_step E A]
        @ (if truthy (arg_entry_points_file A)
           then [\<lambda>r. maker_add_file E (distinfo_path (archive r) ''entry_points.txt'')
                        (the (arg_entry_points_file A)) r]
           else [])
        @ map (extra_distinfo_step E) (sort (map (split (CHR '';'')) (arg_extra_distinfo_file A)))
        @ [on_archive AddRecordfile (\<lambda>w. Inr (add_recordfile E w)),
           write_name_file A m])"
    and run: "f r = (res, r')" and Ir: "I (archive r)"
  have maf: "\<And>p real r res r'. maker_add_file E p real r = (res, r') \<Longrightarrow> I (archive r) \<Longrightarrow> I (archive r')"
    unfolding maker_add_file_def by (erule on_archive_preserves [rotated]) (auto intro: add_file)
  have addmeta: "\<And>w w' md name d v. add_metadata E w md name d v = Inr w' \<Longrightarrow> I w \<Longrightarrow> I w'"
    subgoal for w w' md name d v
      by (cases "metadata_contents E md name d v") (auto simp: add_metadata_def add_string)
    done
  consider (files) p real where "f = maker_add_file E p real"
    | (wheel) "f = on_archive AddWheelfile (\<lambda>w. Inr (add_wheelfile E m w))"
    | (meta) "f = add_metadata_step E A"
    | (entry) "f = (\<lambda>r. maker_add_file E (distinfo_path (archive r) ''entry_points.txt'')
                        (the (arg_entry_points_file A)) r)"
    | (extra) entry where "f = extra_distinfo_step E entry"
    | (manifest) "f = on_archive AddRecordfile (\<lambda>w. Inr (add_recordfile E w))"
    | (namefile) "f = write_name_file A m"
    using f by (auto split: if_splits)
  then show "I (archive r')"
  proof cases
    case files
    then show ?thesis using run Ir maf by blast
  next
    case wheel
    then show ?thesis using run Ir
      by (auto simp: on_archive_def add_wheelfile_def add_string)
  next
    case meta
    show ?thesis
      using run Ir unfolding meta add_metadata_step_def
      by (rule on_archive_preserves [rotated])
         (auto split: sum.splits if_splits option.splits; blast intro: addmeta)
  next
    case entry
    then show ?thesis using run Ir maf by blast
  next
    case extra
    then show ?thesis using run Ir maf
      by (auto simp: extra_distinfo_step_def split: list.splits)
  next
    case manifest
    then show ?thesis using run Ir
      by (auto simp: on_archive_def add_recordfile_def add_string)
  next
    case namefile
    then show ?thesis using run Ir
      by (auto simp: write_name_file_def split: option.splits)
  qed
qed

lemma main_preserves:
  assumes add_file: "\<And>w w' p real. add_file E w p real = Inr w' \<Longrightarrow> I w \<Longrightarrow> I w'"
    and add_string: "\<And>w f c. I w \<Longrightarrow> I (add_string E w f c)"
    and closing: "\<And>w. I w \<Longrightarrow> I (w\<lparr>closed := True\<rparr>)"
    and init: "\<And>d ps. I (WhlFile E d ps)"
    and main: "main E A = (res, Some r)"
  shows "I (archive r)"
proof -
  from main obtain files m res1 r1 where
    b: "body E A m (sort files) \<lparr>archive = enter E m, name_file_text = None,
                        events = [Open (maker_filename m)]\<rparr> = (res1, r1)"
    and r: "r = snd (exit E r1)"
    by (auto simp: main_def split: sum.splits prod.splits option.splits)
  have "I (archive r1)"
    by (rule body_preserves [where I = I and E = E, OF add_file add_string b])
       (simp_all add: enter_def init)
  then show ?thesis by (simp add: r exit_def closing)
qed

lemma main_well_recorded:
  assumes "main E A = (res, Some r)"
  shows "well_recorded E (archive r)"
proof (rule main_preserves [OF _ _ _ _ assms])
  show "\<And>w. well_recorded E w \<Longrightarrow> well_recorded E (w\<lparr>closed := True\<rparr>)"
    by (simp add: well_recorded_def recorded_compression [of "w\<lparr>closed := True\<rparr>" w for w])
  show "\<And>d ps. well_recorded E (WhlFile E d ps)"
    by (simp add: well_recorded_def WhlFile_def)
qed (auto intro: well_recorded_add_file well_recorded_add_string)

lemma well_recorded_member:
  assumes "well_recorded E w" and "m \<in> set (members w)"
  shows "\<exists>e \<in> set (record_entries w). recorded E w m e"
proof -
  from assms(2) obtain i where i: "i < length (members w)" "members w ! i = m"
    by (auto simp: in_set_conv_nth)
  from assms(1) have len: "length (members w) = length (record_entries w)"
    by (simp add: well_recorded_def list_all2_lengthD)
  from assms(1) i(1) have "recorded E w (members w ! i) (record_entries w ! i)"
    by (simp add: well_recorded_def list_all2_nthD)
  with i len show ?thesis by (metis nth_mem)
qed

lemma lstrip_no_leading:
  assumes "c \<in> set cs"
  shows "\<not> startswith (lstrip cs s) [c]"
proof (cases "dropWhile (\<lambda>c. c \<in> set cs) s")
  case Nil
  show ?thesis unfolding startswith_def lstrip_def Nil by simp
next
  case (Cons x xs)
  then have "dropWhile (\<lambda>c. c \<in> set cs) s \<noteq> []" by simp
  from hd_dropWhile [OF this] Cons have "x \<notin> set cs" by simp
  with assms show ?thesis unfolding startswith_def lstrip_def Cons by auto
qed


section \<open>Member headers\<close>

text \<open>
  C6. Every member of the archive that a run of \<open>main\<close> writes, whether it comes from a
  file (\<open>add_file\<close>) or is synthesized (\<open>add_string\<close>), carries the timestamp
  1980-01-01 00:00:00, the permission bits \<open>0o777\<close> shifted into the upper half of the
  external attributes, and create-system 3 (unix), whatever the modification times and
  modes of the files in the file system are.
\<close>

theorem member_headers_are_fixed:
  assumes "main E A = (res, Some r)"
  shows "\<forall>m \<in> set (members (archive r)).
           date_time (fst m) = (1980, 1, 1, 0, 0, 0)
           \<and> external_attr (fst m) = push_bit 16 (0x1FF :: nat)
           \<and> create_system (fst m) = 3"
proof
  fix m assume "m \<in> set (members (archive r))"
  with main_well_recorded [OF assms] obtain e where "recorded E (archive r) m e"
    by (blast dest: well_recorded_member)
  then show "date_time (fst m) = (1980, 1, 1, 0, 0, 0)
           \<and> external_attr (fst m) = push_bit 16 (0x1FF :: nat)
           \<and> create_system (fst m) = 3"
    by (simp add: recorded_def zipinfo_def ZIP_EPOCH_def)
qed

theorem member_headers_are_fixed_witness:
  "main example_env example_args = (None, Some example_run)
   \<and> map (\<lambda>m. (date_time (fst m), external_attr (fst m), create_system (fst m)))
         (members (archive example_run))
       = [((1980, 1, 1, 0, 0, 0), 33488896, 3), ((1980, 1, 1, 0, 0, 0), 33488896, 3),
          ((1980, 1, 1, 0, 0, 0), 33488896, 3), ((1980, 1, 1, 0, 0, 0), 33488896, 3)]"
proof -
  have "map (\<lambda>m. (date_time (fst m), external_attr (fst m), create_system (fst m)))
          (members (archive example_run))
        = map (\<lambda>m. ((1980, 1, 1, 0, 0, 0), 33488896, 3)) (members (archive example_run))"
    using member_headers_are_fixed [OF example_main] by (intro map_cong) simp_all
  also have "\<dots> = [((1980, 1, 1, 0, 0, 0), 33488896, 3), ((1980, 1, 1, 0, 0, 0), 33488896, 3),
          ((1980, 1, 1, 0, 0, 0), 33488896, 3), ((1980, 1, 1, 0, 0, 0), 33488896, 3)]"
    by (simp add: example_run_def example_archive_def example_members_def)
  finally show ?thesis using example_main by simp
qed

section \<open>Digests and sizes\<close>

text \<open>
  C7. In every run of \<open>main\<close> the members and the record entries correspond one to one:
  the digest recorded for a member is the tag \<open>sha256=\<close> followed by the URL-safe base64
  encoding, with the trailing \<open>=\<close> removed, of the SHA-256 digest of exactly the bytes
  written for that member, and the recorded size is the decimal number of those bytes.
\<close>

theorem recorded_digest_and_size:
  assumes "main E A = (res, Some r)"
  shows "list_all2
           (\<lambda>m e. filename (fst m) = lstrip (separators E) (fst e)
                 \<and> fst (snd e) = ''sha256='' @ rstrip ''='' (urlsafe_b64encode (sha256 E (snd m)))
                 \<and> snd (snd e) = str_nat (length (snd m)))
           (members (archive r)) (record_entries (archive r))"
  using main_well_recorded [OF assms] unfolding well_recorded_def
  by (rule list_all2_mono) (simp add: recorded_def zipinfo_def serialize_digest_def)

theorem recorded_digest_and_size_witness:
  "main example_env example_args = (None, Some example_run)
   \<and> map snd (members (archive example_run))
       = [''two'', example_wheel, example_metadata, example_record]
   \<and> record_entries (archive example_run)
       = [(''/c.txt'', ''sha256=dHdv'', ''3''),
          (''my_pkg-1.0b0.dist-info/WHEEL'', ''sha256=V2hlZQ'', ''91''),
          (''my_pkg-1.0b0.dist-info/METADATA'', ''sha256=TmFtZQ'', ''50''),
          (''my_pkg-1.0b0.dist-info/RECORD'', ''sha256=Yy50eA'', ''147'')]
   \<and> list_all2
         (\<lambda>m e. filename (fst m) = lstrip (separators example_env) (fst e)
               \<and> fst (snd e)
                   = ''sha256='' @ rstrip ''='' (urlsafe_b64encode (sha256 example_env (snd m)))
               \<and> snd (snd e) = str_nat (length (snd m)))
         (members (archive example_run)) (record_entries (archive example_run))"
  using recorded_digest_and_size [OF example_main] example_main
  by (simp add: example_run_def example_archive_def example_members_def example_entries_def)

section \<open>Leading separators\<close>

text \<open>
  C10. On a platform where \<open>/\<close> is a path separator, no member name stored in the archive
  by a run of \<open>main\<close> begins with \<open>/\<close>, and no line that \<open>add_recordfile\<close> serializes
  for a record entry begins with \<open>/\<close>, also when prefix stripping leaves a name that
  begins with \<open>/\<close>.
\<close>

theorem no_leading_separator:
  assumes "main E A = (res, Some r)" and "CHR ''/'' \<in> set (separators E)"
  shows "(\<forall>m \<in> set (members (archive r)). \<not> startswith (filename (fst m)) ''/'')
         \<and> (\<forall>e. \<not> startswith (record_line e) ''/'')"
proof (intro conjI ballI allI)
  fix m assume "m \<in> set (members (archive r))"
  with main_well_recorded [OF assms(1)] obtain e where "recorded E (archive r) m e"
    by (blast dest: well_recorded_member)
  then have "filename (fst m) = lstrip (separators E) (fst e)"
    by (simp add: recorded_def zipinfo_def)
  then show "\<not> startswith (filename (fst m)) ''/''"
    using lstrip_no_leading [OF assms(2)] by simp
next
  fix e :: "string \<times> string \<times> string"
  obtain f d n where e: "e = (f, d, n)" by (cases e)
  have "\<not> startswith (lstrip ''/'' f) ''/''"
    by (rule lstrip_no_leading) simp
  then show "\<not> startswith (record_line e) ''/''"
    by (cases "lstrip ''/'' f") (simp_all add: record_line_def e startswith_def)
qed

theorem no_leading_separator_witness:
  "main example_env example_args = (None, Some example_run)
   \<and> CHR ''/'' \<in> set (separators example_env)
   \<and> arcname_from example_env (example_archive 0 False) ''a/b/c.txt'' = ''/c.txt''
   \<and> map (\<lambda>m. filename (fst m)) (members (archive example_run))
       = [''c.txt'', ''my_pkg-1.0b0.dist-info/WHEEL'', ''my_pkg-1.0b0.dist-info/METADATA'',
          ''my_pkg-1.0b0.dist-info/RECORD'']
   \<and> record_line (''/c.txt'', ''sha256=dHdv'', ''3'') = ''c.txt,sha256=dHdv,3'' @ nl
   \<and> \<not> startswith (filename (fst (hd (members (archive example_run))))) ''/''
   \<and> \<not> startswith (record_line (''/c.txt'', ''sha256=dHdv'', ''3'')) ''/''"
proof -
  have sep: "CHR ''/'' \<in> set (separators example_env)"
    by (simp add: separators_def example_env_simps)
  have "hd (members (archive example_run)) \<in> set (members (archive example_run))"
    by (simp add: example_run_def example_archive_def example_members_def)
  with no_leading_separator [OF example_main sep]
  have "\<not> startswith (filename (fst (hd (members (archive example_run))))) ''/''"
    and "\<not> startswith (record_line (''/c.txt'', ''sha256=dHdv'', ''3'')) ''/''"
    by blast+
  then show ?thesis
    using example_main sep example_arcname
    by (simp add: example_run_def example_archive_def example_members_def example_header_def
          record_line_def lstrip_def)
qed

section \<open>Version normalisation on malformed input\<close>

lemma library_rejects:
  "pep440_str [] = None" "pep440_str ''+'' = None" "pep440_str ''0+'' = None"
  by code_simp+

lemma empty_version_parts:
  "sanitized [] = []" "substituted [] = []" "delimiter [] = ''+''"
  by (simp_all add: sanitized_def substituted_def delimiter_def lower_def strip_def lstrip_def
        rstrip_def)

text \<open>
  C3. The claim is that \<open>normalize_pep440\<close> returns a valid version for every input
  string, the empty string included. For the empty string the sanitized text is empty, so
  the last fallback asks the version library for \<open>0+\<close>, which is not a version; that call
  is outside any \<open>try\<close>, and the exception leaves the function.
\<close>

theorem normalize_pep440_raises_on_empty_version:
  "normalize_pep440 pep440_str [] = Inl InvalidVersion"
  by (simp add: normalize_pep440_def library_rejects empty_version_parts)

section \<open>Duplicate archive paths\<close>

lemma set_update_distinct:
  "distinct (map fst al) \<Longrightarrow>
     set (AList.update k v al) = insert (k, v) {(p, r). (p, r) \<in> set al \<and> p \<noteq> k}"
  by (induction al) (auto simp: rev_image_eqI)

lemma get_files_loop_distinct:
  "get_files_loop acc xs = Inr files \<Longrightarrow> distinct (map fst acc) \<Longrightarrow> distinct (map fst files)"
proof (induction acc xs rule: get_files_loop.induct)
  case (2 files package_path real_path input_files)
  then show ?case by (simp add: distinct_update)
qed simp_all

lemma get_files_loop_set:
  "get_files_loop acc xs = Inr files \<Longrightarrow> distinct (map fst acc) \<Longrightarrow>
     set files =
       {(p, r). \<exists>ys zs. xs = ys @ [p, r] # zs \<and> (\<forall>r'. [p, r'] \<notin> set zs)}
       \<union> {(p, r). (p, r) \<in> set acc \<and> (\<forall>r'. [p, r'] \<notin> set xs)}"
proof (induction acc xs rule: get_files_loop.induct)
  case (1 files)
  then show ?case by auto
next
  case (2 acc a b xs)
  have d: "distinct (map fst (AList.update a b acc))"
    using "2.prems"(2) by (simp add: distinct_update)
  have loop: "get_files_loop (AList.update a b acc) xs = Inr files"
    using "2.prems"(1) by simp
  have split: "(\<exists>ys zs. [a, b] # xs = ys @ [p, r] # zs \<and> (\<forall>r'. [p, r'] \<notin> set zs))
      \<longleftrightarrow> (p = a \<and> r = b \<and> (\<forall>r'. [a, r'] \<notin> set xs))
          \<or> (\<exists>ys zs. xs = ys @ [p, r] # zs \<and> (\<forall>r'. [p, r'] \<notin> set zs))" for p r
    by (auto simp: Cons_eq_append_conv)
  show ?case
    unfolding "2.IH" [OF loop d] set_update_distinct [OF "2.prems"(2)] split
    by auto
qed simp_all

text \<open>The loop over the input entries, and the steps after it.\<close>

lemma steps_append:
  "steps (fs @ gs) r =
     (case steps fs r of (None, r') \<Rightarrow> steps gs r' | (Some e, r') \<Rightarrow> (Some e, r'))"
  by (induction fs arbitrary: r) (auto split: prod.splits option.splits)

lemma grown_refl: "grown w w"
  by (simp add: grown_def)

lemma grown_trans: "grown w w' \<Longrightarrow> grown w' w'' \<Longrightarrow> grown w w''"
  by (auto simp: grown_def)

lemma grown_add_string: "grown w (add_string E w f c)"
  by (simp add: grown_def add_string_eq)

lemma grown_add_leaf: "grown w (add_leaf E w p c)"
  by (simp add: grown_def add_leaf_eq)

lemma grown_add_node:
  "grown w (add_node E p node w)"
  "grown w (add_children E p children w)"
proof (induction E p node w and E p children w rule: add_node_add_children.induct)
  case (4 E package_filename child children w)
  show ?case
    using grown_trans [OF "4.IH"(1) "4.IH"(2)] by simp
qed (simp_all add: grown_add_leaf grown_refl)

lemma grown_add_file: "add_file E w p real = Inr w' \<Longrightarrow> grown w w'"
  by (auto simp: add_file_def grown_add_node split: option.splits)

lemma grown_add_metadata: "add_metadata E w md name d v = Inr w' \<Longrightarrow> grown w w'"
  by (cases "metadata_contents E md name d v") (auto simp: add_metadata_def grown_add_string)

lemma extends_refl: "extends r r"
  by (simp add: extends_def grown_refl)

lemma extends_trans: "extends r r' \<Longrightarrow> extends r' r'' \<Longrightarrow> extends r r''"
  by (auto simp: extends_def intro: grown_trans)

lemma extends_on_archive:
  assumes "\<And>w w'. f w = Inr w' \<Longrightarrow> grown w w'" and "on_archive ev f r = (res, r')"
  shows "extends r r'"
  using assms by (cases "f (archive r)") (auto simp: on_archive_def extends_def grown_refl)

lemma extends_maker_add_file: "maker_add_file E p real r = (res, r') \<Longrightarrow> extends r r'"
  unfolding maker_add_file_def by (erule extends_on_archive [rotated]) (rule grown_add_file)

lemma extends_add_metadata_step: "add_metadata_step E A r = (res, r') \<Longrightarrow> extends r r'"
  unfolding add_metadata_step_def
  by (erule extends_on_archive [rotated])
     (auto split: sum.splits if_splits option.splits intro: grown_add_metadata)

lemma extends_extra_distinfo_step: "extra_distinfo_step E entry r = (res, r') \<Longrightarrow> extends r r'"
  by (auto simp: extra_distinfo_step_def extends_refl split: list.splits
        intro: extends_maker_add_file)

lemma extends_write_name_file: "write_name_file A m r = (res, r') \<Longrightarrow> extends r r'"
  by (auto simp: write_name_file_def extends_def grown_def split: option.splits)

lemma extends_steps:
  assumes "\<And>f r res r'. f \<in> set fs \<Longrightarrow> f r = (res, r') \<Longrightarrow> extends r r'"
    and "steps fs r = (res, r')"
  shows "extends r r'"
  by (rule steps_preserve [where P = "extends r", OF _ assms(2) extends_refl])
     (blast intro: extends_trans assms(1))


lemma add_node_fields [simp]:
  "compression (add_node E p node w) = compression w
   \<and> distinfo_dir (add_node E p node w) = distinfo_dir w
   \<and> strip_path_prefixes (add_node E p node w) = strip_path_prefixes w"
  "compression (add_children E p children w) = compression w
   \<and> distinfo_dir (add_children E p children w) = distinfo_dir w
   \<and> strip_path_prefixes (add_children E p children w) = strip_path_prefixes w"
  by (induction E p node w and E p children w rule: add_node_add_children.induct) simp_all

lemma same_settings_file:
  assumes "same_settings w w'"
  shows "file_member E w' = file_member E w" "file_entry E w' = file_entry E w"
  using assms
  by (auto simp: same_settings_def file_member_def file_entry_def zipinfo_def arcname_from_def
        Let_def intro!: ext)

lemma body_same_settings:
  assumes "body E A m all_files r = (res, r')"
  shows "same_settings (archive r) (archive r')"
  by (rule body_preserves [where I = "same_settings (archive r)", OF _ _ assms])
     (auto simp: same_settings_def add_file_def split: option.splits)

lemma maker_add_file_eq:
  "maker_add_file E p real r =
     (case add_file E (archive r) p real of
        Inl e \<Rightarrow> (Some e, r)
      | Inr w \<Rightarrow> (None, r\<lparr>archive := w, events := events r @ [AddFile p]\<rparr>))"
  by (simp add: maker_add_file_def on_archive_def)

lemma add_files_step:
  assumes "steps (map (\<lambda>(p, real). maker_add_file E p real) ((p, real) # fs)) r = (None, r')"
  shows "\<exists>w. add_file E (archive r) p real = Inr w
           \<and> steps (map (\<lambda>(p, real). maker_add_file E p real) fs)
                (r\<lparr>archive := w, events := events r @ [AddFile p]\<rparr>) = (None, r')"
proof -
  let ?F = "map (\<lambda>(p, real). maker_add_file E p real) fs"
  have s: "steps (maker_add_file E p real # ?F) r = (None, r')"
    using assms by simp
  show ?thesis
  proof (cases "add_file E (archive r) p real")
    case (Inl e)
    then have "maker_add_file E p real r = (Some e, r)" by (simp add: maker_add_file_eq)
    with s show ?thesis by simp
  next
    case (Inr w)
    then have "maker_add_file E p real r
                 = (None, r\<lparr>archive := w, events := events r @ [AddFile p]\<rparr>)"
      by (simp add: maker_add_file_eq)
    with s have "steps ?F (r\<lparr>archive := w, events := events r @ [AddFile p]\<rparr>) = (None, r')"
      by simp
    with Inr show ?thesis by simp
  qed
qed

lemma add_files_events:
  "steps (map (\<lambda>(p, real). maker_add_file E p real) fs) r = (None, r') \<Longrightarrow>
     events r' = events r @ map (\<lambda>(p, real). AddFile p) fs"
proof (induction fs arbitrary: r)
  case Nil
  then show ?case by simp
next
  case (Cons a fs)
  obtain p real where a: "a = (p, real)" by (cases a)
  from add_files_step [OF Cons.prems [unfolded a]]
  obtain w where w: "add_file E (archive r) p real = Inr w"
    and s: "steps (map (\<lambda>(p, real). maker_add_file E p real) fs)
              (r\<lparr>archive := w, events := events r @ [AddFile p]\<rparr>) = (None, r')"
    by blast
  from Cons.IH [OF s] show ?case by (simp add: a)
qed

lemma add_files_members:
  assumes "steps (map (\<lambda>(p, real). maker_add_file E p real) fs) r = (None, r')"
    and "\<forall>entry \<in> set fs. is_file E (snd entry)"
  shows "members (archive r') = members (archive r) @ map (file_member E (archive r)) fs
         \<and> record_entries (archive r')
             = record_entries (archive r) @ map (file_entry E (archive r)) fs"
  using assms
proof (induction fs arbitrary: r)
  case Nil
  then show ?case by simp
next
  case (Cons a fs)
  obtain p real where a: "a = (p, real)" by (cases a)
  from Cons.prems(2) obtain c mt mo where n: "node_at E real = Some (File c mt mo)"
    by (auto simp: a is_file_def split: option.splits fsnode.splits)
  let ?w = "add_leaf E (archive r) p c"
  let ?r1 = "r\<lparr>archive := ?w, events := events r @ [AddFile p]\<rparr>"
  from add_files_step [OF Cons.prems(1) [unfolded a]]
  have s: "steps (map (\<lambda>(p, real). maker_add_file E p real) fs) ?r1 = (None, r')"
    by (simp add: add_file_def n)
  have same: "same_settings (archive r) ?w"
    by (simp add: same_settings_def)
  have fs: "\<forall>entry \<in> set fs. is_file E (snd entry)"
    using Cons.prems(2) by simp
  have 1: "members ?w = members (archive r) @ [file_member E (archive r) a]"
    and 2: "record_entries ?w = record_entries (archive r) @ [file_entry E (archive r) a]"
    by (simp_all add: add_leaf_eq file_member_def file_entry_def a n)
  from Cons.IH [OF s fs] show ?case
    by (simp add: same_settings_file [OF same] 1 2)
qed

lemma body_rest_extends:
  assumes "f \<in> set
      ([add_metadata_step E A]
        @ (if truthy (arg_entry_points_file A)
           then [\<lambda>r. maker_add_file E (distinfo_path (archive r) ''entry_points.txt'')
                        (the (arg_entry_points_file A)) r]
           else [])
        @ map (extra_distinfo_step E) (sort (map (split (CHR '';'')) (arg_extra_distinfo_file A)))
        @ [on_archive AddRecordfile (\<lambda>w. Inr (add_recordfile E w)),
           write_name_file A m])"
    and run: "f r = (res, r')"
  shows "extends r r'"
proof -
  consider (meta) "f = add_metadata_step E A"
    | (entry) "f = (\<lambda>r. maker_add_file E (distinfo_path (archive r) ''entry_points.txt'')
                        (the (arg_entry_points_file A)) r)"
    | (extra) entry where "f = extra_distinfo_step E entry"
    | (manifest) "f = on_archive AddRecordfile (\<lambda>w. Inr (add_recordfile E w))"
    | (namefile) "f = write_name_file A m"
    using assms(1) by (auto split: if_splits)
  then show ?thesis
  proof cases
    case meta
    then show ?thesis using run by (simp add: extends_add_metadata_step)
  next
    case entry
    then show ?thesis using run by (simp add: extends_maker_add_file)
  next
    case extra
    then show ?thesis using run by (simp add: extends_extra_distinfo_step)
  next
    case manifest
    show ?thesis
      using run unfolding manifest
      by (rule extends_on_archive [rotated]) (auto simp: add_recordfile_def grown_add_string)
  next
    case namefile
    then show ?thesis using run by (simp add: extends_write_name_file)
  qed
qed

lemma body_files_first:
  assumes b: "body E A m all_files r = (None, r')"
  shows "(\<exists>rest. events r' = events r @ map (\<lambda>(p, real). AddFile p) all_files @ AddWheelfile # rest)
         \<and> ((\<forall>entry \<in> set all_files. is_file E (snd entry)) \<longrightarrow>
              (\<exists>ms es. members (archive r')
                         = members (archive r) @ map (file_member E (archive r)) all_files @ ms
                       \<and> record_entries (archive r')
                         = record_entries (archive r) @ map (file_entry E (archive r)) all_files @ es))"
proof -
  let ?F = "map (\<lambda>(package_filename, real_filename). maker_add_file E package_filename real_filename)
            all_files"
  let ?R = "[add_metadata_step E A]
        @ (if truthy (arg_entry_points_file A)
           then [\<lambda>r. maker_add_file E (distinfo_path (archive r) ''entry_points.txt'')
                        (the (arg_entry_points_file A)) r]
           else [])
        @ map (extra_distinfo_step E) (sort (map (split (CHR '';'')) (arg_extra_distinfo_file A)))
        @ [on_archive AddRecordfile (\<lambda>w. Inr (add_recordfile E w)),
           write_name_file A m]"
  have body: "body E A m all_files
      = steps (?F @ on_archive AddWheelfile (\<lambda>w. Inr (add_wheelfile E m w)) # ?R)"
    by (simp add: body_def)
  obtain res1 ra where sF: "steps ?F r = (res1, ra)" by (cases "steps ?F r")
  have res1: "res1 = None"
    using b sF by (cases res1) (simp_all add: body steps_append)
  let ?rb = "ra\<lparr>archive := add_wheelfile E m (archive ra), events := events ra @ [AddWheelfile]\<rparr>"
  have sR: "steps ?R ?rb = (None, r')"
    using b sF res1 by (simp add: body steps_append on_archive_def)
  have "extends ?rb r'"
    by (rule extends_steps [OF _ sR]) (rule body_rest_extends)
  then obtain ms es evs where
    ms: "members (archive r') = members (archive ?rb) @ ms"
    and es: "record_entries (archive r') = record_entries (archive ?rb) @ es"
    and evs: "events r' = events ?rb @ evs"
    by (auto simp: extends_def grown_def)
  have ev: "events ra = events r @ map (\<lambda>(p, real). AddFile p) all_files"
    using sF res1 by (simp add: add_files_events)
  have 1: "\<exists>rest. events r' = events r @ map (\<lambda>(p, real). AddFile p) all_files @ AddWheelfile # rest"
    using evs ev by simp
  have 2: "\<exists>ms es. members (archive r')
                         = members (archive r) @ map (file_member E (archive r)) all_files @ ms
                       \<and> record_entries (archive r')
                         = record_entries (archive r) @ map (file_entry E (archive r)) all_files @ es"
    if "\<forall>entry \<in> set all_files. is_file E (snd entry)"
  proof -
    from add_files_members [OF sF [unfolded res1] that]
    have "members (archive ra) = members (archive r) @ map (file_member E (archive r)) all_files"
      "record_entries (archive ra)
             = record_entries (archive r) @ map (file_entry E (archive r)) all_files"
      by simp_all
    with ms es show ?thesis by (simp add: add_wheelfile_def add_string_eq)
  qed
  from 1 2 show ?thesis by blast
qed


text \<open>
  C1, as amended. \<open>get_files_to_package\<close> collects the input entries in a dictionary keyed
  by archive path, so of the entries that name the same archive path only the last is
  kept. In every run that completes, the sorted list that \<open>main\<close> hands to the archive
  writer has pairwise distinct archive paths and pairs each archive path with the source
  path of the last input entry that names it; \<open>add_file\<close> is called once for each entry
  of that list, in sorted order, right after the archive is opened and before the
  \<open>WHEEL\<close> member is added; and when the sources are regular files, the archive starts
  with exactly one member, and the record with exactly one entry, for each entry of that
  list, in that order. (A source that is a directory is expanded into one member for each
  file below it.)
\<close>

theorem duplicate_archive_paths_collapse:
  assumes "main E A = (None, Some r)"
  shows "\<exists>files.
           get_files_to_package (map (split (CHR '';'')) (arg_input_file A)) = Inr files
           \<and> distinct (map fst (sort files))
           \<and> set (sort files)
               = {(p, real). \<exists>ys zs. map (split (CHR '';'')) (arg_input_file A) = ys @ [p, real] # zs
                                      \<and> (\<forall>real'. [p, real'] \<notin> set zs)}
           \<and> (\<exists>f rest. events r
                 = Open f # map (\<lambda>(p, real). AddFile p) (sort files) @ AddWheelfile # rest)
           \<and> ((\<forall>entry \<in> set files. is_file E (snd entry)) \<longrightarrow>
                (\<exists>ms es. members (archive r) = map (file_member E (archive r)) (sort files) @ ms
                         \<and> record_entries (archive r)
                             = map (file_entry E (archive r)) (sort files) @ es))"
proof -
  let ?input = "map (split (CHR '';'')) (arg_input_file A)"
  from assms obtain files m r1 where
    f: "get_files_to_package ?input = Inr files"
    and b: "body E A m (sort files) \<lparr>archive = enter E m, name_file_text = None,
                        events = [Open (maker_filename m)]\<rparr> = (None, r1)"
    and r: "r = snd (exit E r1)"
    by (auto simp: main_def exit_def split: sum.splits prod.splits option.splits)
  have d: "distinct (map fst files)"
    using f get_files_loop_distinct [of "[]" ?input files]
    by (simp add: get_files_to_package_def)
  then have 1: "distinct (map fst (sort files))"
    by (simp add: distinct_map)
  have 2: "set (sort files)
      = {(p, real). \<exists>ys zs. ?input = ys @ [p, real] # zs \<and> (\<forall>real'. [p, real'] \<notin> set zs)}"
    using f get_files_loop_set [of "[]" ?input files]
    by (simp add: get_files_to_package_def)
  have same: "same_settings (enter E m) (archive r)"
    using body_same_settings [OF b] by (simp add: r exit_def same_settings_def)
  note first = body_files_first [OF b]
  from first have 3: "\<exists>f rest. events r
                 = Open f # map (\<lambda>(p, real). AddFile p) (sort files) @ AddWheelfile # rest"
    by (auto simp: r exit_def)
  have 4: "\<exists>ms es. members (archive r) = map (file_member E (archive r)) (sort files) @ ms
                         \<and> record_entries (archive r)
                             = map (file_entry E (archive r)) (sort files) @ es"
    if "\<forall>entry \<in> set files. is_file E (snd entry)"
  proof -
    from that have "\<forall>entry \<in> set (sort files). is_file E (snd entry)" by simp
    with first obtain ms es where
      "members (archive r1) = map (file_member E (enter E m)) (sort files) @ ms"
      "record_entries (archive r1) = map (file_entry E (enter E m)) (sort files) @ es"
      by (auto simp: enter_def WhlFile_def)
    then show ?thesis
      unfolding same_settings_file [OF same] by (simp add: r exit_def)
  qed
  from f 1 2 3 4 show ?thesis by blast
qed

theorem duplicate_archive_paths_collapse_witness:
  "main example_env example_args = (None, Some example_run)
   \<and> arg_input_file example_args = [''a/b/c.txt;src/one'', ''a/b/c.txt;src/two'']
   \<and> get_files_to_package (map (split (CHR '';'')) (arg_input_file example_args))
       = Inr [(''a/b/c.txt'', ''src/two'')]
   \<and> is_file example_env ''src/two''
   \<and> (\<exists>f rest. events example_run = Open f # AddFile ''a/b/c.txt'' # AddWheelfile # rest)
   \<and> (\<exists>ms es. members (archive example_run) = (example_header ''c.txt'', ''two'') # ms
              \<and> record_entries (archive example_run) = (''/c.txt'', ''sha256=dHdv'', ''3'') # es)"
proof -
  have isf: "is_file example_env ''src/two''"
    by (simp add: is_file_def example_env_simps)
  have a: "arcname_from example_env (archive example_run) ''a/b/c.txt'' = ''/c.txt''"
    by (simp add: arcname_from_def replace_char_def startswith_def example_env_simps
          example_run_def example_archive_def Let_def)
  have m: "file_member example_env (archive example_run) (''a/b/c.txt'', ''src/two'')
             = (example_header ''c.txt'', ''two'')"
    by (simp add: file_member_def a zipinfo_eq example_env_simps example_header_def)
       (simp add: example_run_def example_archive_def)
  have e: "file_entry example_env (archive example_run) (''a/b/c.txt'', ''src/two'')
             = (''/c.txt'', ''sha256=dHdv'', ''3'')"
    by (simp add: file_entry_def a example_env_simps example_digests example_sizes
          del: list.size(4) length_Cons)
  from duplicate_archive_paths_collapse [OF example_main] obtain files where
    f: "get_files_to_package (map (split (CHR '';'')) (arg_input_file example_args)) = Inr files"
    and ev: "\<exists>f rest. events example_run
                 = Open f # map (\<lambda>(p, real). AddFile p) (sort files) @ AddWheelfile # rest"
    and ms: "(\<forall>entry \<in> set files. is_file example_env (snd entry)) \<longrightarrow>
                (\<exists>ms es. members (archive example_run)
                            = map (file_member example_env (archive example_run)) (sort files) @ ms
                         \<and> record_entries (archive example_run)
                             = map (file_entry example_env (archive example_run)) (sort files) @ es)"
    by blast
  from f have files: "files = [(''a/b/c.txt'', ''src/two'')]"
    by (simp add: example_files)
  from ev have 1: "\<exists>f rest. events example_run
                     = Open f # AddFile ''a/b/c.txt'' # AddWheelfile # rest"
    by (simp add: files)
  from ms isf have 2: "\<exists>ms es. members (archive example_run) = (example_header ''c.txt'', ''two'') # ms
              \<and> record_entries (archive example_run) = (''/c.txt'', ''sha256=dHdv'', ''3'') # es"
    by (simp add: files m e)
  from example_main example_files isf 1 2 show ?thesis
    by (simp add: example_args_simps)
qed

text \<open>
  C1, as stated, fails: in the example run the input list names \<open>a/b/c.txt\<close> twice, and the
  archive holds one member for it, with the bytes of the second source, and the manifest
  one line.
\<close>

theorem duplicate_archive_path_written_once:
  "arg_input_file example_args = [''a/b/c.txt;src/one'', ''a/b/c.txt;src/two'']
   \<and> main example_env example_args = (None, Some example_run)
   \<and> members (archive example_run)
       = [(example_header ''c.txt'', ''two''),
          (example_header ''my_pkg-1.0b0.dist-info/WHEEL'', example_wheel),
          (example_header ''my_pkg-1.0b0.dist-info/METADATA'', example_metadata),
          (example_header ''my_pkg-1.0b0.dist-info/RECORD'', example_record)]
   \<and> example_record
       = ''c.txt,sha256=dHdv,3'' @ nl
         @ ''my_pkg-1.0b0.dist-info/WHEEL,sha256=V2hlZQ,91'' @ nl
         @ ''my_pkg-1.0b0.dist-info/METADATA,sha256=TmFtZQ,50'' @ nl
         @ ''my_pkg-1.0b0.dist-info/RECORD,,'' @ nl"
  using example_main
  by (simp add: example_args_simps example_run_def example_archive_def example_members_def
        example_record_def)

section \<open>The name file and the close of the archive\<close>

lemma quiet_on_archive:
  "ev \<noteq> Close \<Longrightarrow> (\<And>n. ev \<noteq> WriteNameFile n) \<Longrightarrow> quiet (on_archive ev f)"
  unfolding quiet_def on_archive_def by (auto split: sum.splits)

lemma quiet_maker_add_file: "quiet (maker_add_file E p real)"
  unfolding maker_add_file_def by (rule quiet_on_archive) simp_all

lemma quiet_entry_points:
  "quiet (\<lambda>r. maker_add_file E (distinfo_path (archive r) fname) real r)"
  using quiet_maker_add_file unfolding quiet_def by blast

lemma quiet_extra_distinfo_step: "quiet (extra_distinfo_step E entry)"
proof -
  have "quiet (\<lambda>r. (Some ValueError, r))" by (simp add: quiet_def)
  moreover have "extra_distinfo_step E entry = (\<lambda>r. (Some ValueError, r))
      \<or> (\<exists>fname real. extra_distinfo_step E entry
            = (\<lambda>r. maker_add_file E (distinfo_path (archive r) fname) real r))"
    by (auto simp: extra_distinfo_step_def fun_eq_iff split: list.splits)
  ultimately show ?thesis using quiet_entry_points by auto
qed

lemma quiet_add_metadata_step: "quiet (add_metadata_step E A)"
  unfolding add_metadata_step_def by (rule quiet_on_archive) simp_all

lemma quiet_steps: "(\<And>f. f \<in> set fs \<Longrightarrow> quiet f) \<Longrightarrow> quiet (steps fs)"
proof (induction fs)
  case Nil
  then show ?case by (simp add: quiet_def)
next
  case (Cons f fs)
  have f: "quiet f" and fs: "quiet (steps fs)" using Cons by simp_all
  show ?case unfolding quiet_def
  proof (intro allI impI)
    fix r res r' assume run: "steps (f # fs) r = (res, r')"
    obtain res1 r1 where f1: "f r = (res1, r1)" by (cases "f r")
    from f f1 obtain evs1 where 1: "name_file_text r1 = name_file_text r"
      "events r1 = events r @ evs1" "Close \<notin> set evs1" "\<forall>n. WriteNameFile n \<notin> set evs1"
      unfolding quiet_def by blast
    show "name_file_text r' = name_file_text r
     \<and> (\<exists>evs. events r' = events r @ evs \<and> Close \<notin> set evs
                \<and> (\<forall>n. WriteNameFile n \<notin> set evs))"
    proof (cases res1)
      case None
      with run f1 have "steps fs r1 = (res, r')" by simp
      with fs obtain evs2 where 2: "name_file_text r' = name_file_text r1"
        "events r' = events r1 @ evs2" "Close \<notin> set evs2" "\<forall>n. WriteNameFile n \<notin> set evs2"
        unfolding quiet_def by blast
      from 1 2 have "events r' = events r @ (evs1 @ evs2)" "Close \<notin> set (evs1 @ evs2)"
        "\<forall>n. WriteNameFile n \<notin> set (evs1 @ evs2)" by simp_all
      with 1 2 show ?thesis by metis
    next
      case (Some e)
      with run f1 have "r' = r1" by simp
      with 1 show ?thesis by blast
    qed
  qed
qed

lemma body_shape:
  "\<exists>fs. (\<forall>f \<in> set fs. quiet f)
     \<and> body E A m all_files
         = steps (fs @ [on_archive AddRecordfile (\<lambda>w. Inr (add_recordfile E w)),
                        write_name_file A m])"
proof -
  let ?fs = "map (\<lambda>(package_filename, real_filename). maker_add_file E package_filename real_filename)
            all_files
        @ [on_archive AddWheelfile (\<lambda>w. Inr (add_wheelfile E m w)),
           add_metadata_step E A]
        @ (if truthy (arg_entry_points_file A)
           then [\<lambda>r. maker_add_file E (distinfo_path (archive r) ''entry_points.txt'')
                        (the (arg_entry_points_file A)) r]
           else [])
        @ map (extra_distinfo_step E) (sort (map (split (CHR '';'')) (arg_extra_distinfo_file A)))"
  have "\<forall>f \<in> set ?fs. quiet f"
    by (auto simp: quiet_maker_add_file quiet_add_metadata_step quiet_extra_distinfo_step
          quiet_entry_points quiet_on_archive)
  moreover have "body E A m all_files
         = steps (?fs @ [on_archive AddRecordfile (\<lambda>w. Inr (add_recordfile E w)),
                        write_name_file A m])"
    by (simp add: body_def)
  ultimately show ?thesis by blast
qed

lemma body_events:
  assumes "body E A m all_files r = (res, r')" and "name_file_text r = None"
  shows "\<exists>evs. events r' = events r @ evs \<and> Close \<notin> set evs
           \<and> (case name_file_text r' of
                 None \<Rightarrow> res \<noteq> None \<and> (\<forall>n. WriteNameFile n \<notin> set evs)
               | Some n \<Rightarrow>
                   res = None
                   \<and> (\<exists>evs'. evs = evs' @ [AddRecordfile, WriteNameFile n]
                               \<and> (\<forall>n'. WriteNameFile n' \<notin> set evs')))"
proof -
  obtain fs where q: "\<forall>f \<in> set fs. quiet f"
    and b: "body E A m all_files
         = steps (fs @ [on_archive AddRecordfile (\<lambda>w. Inr (add_recordfile E w)),
                        write_name_file A m])"
    using body_shape by blast
  obtain res1 r1 where s1: "steps fs r = (res1, r1)" by (cases "steps fs r")
  from q have "quiet (steps fs)" by (simp add: quiet_steps)
  with s1 obtain evs1 where 1: "name_file_text r1 = name_file_text r"
    "events r1 = events r @ evs1" "Close \<notin> set evs1" "\<forall>n. WriteNameFile n \<notin> set evs1"
    unfolding quiet_def by blast
  show ?thesis
  proof (cases res1)
    case (Some e)
    with assms(1) s1 have "res = Some e" "r' = r1"
      by (simp_all add: b steps_append)
    with 1 assms(2) show ?thesis by auto
  next
    case None
    let ?r2 = "r1\<lparr>archive := add_recordfile E (archive r1), events := events r1 @ [AddRecordfile]\<rparr>"
    from None assms(1) s1 have w: "write_name_file A m ?r2 = (res, r')"
      by (simp add: b steps_append on_archive_def split: prod.splits option.splits)
    show ?thesis
    proof (cases "arg_name_file A")
      case None
      with w have "res = Some AttributeError" "r' = ?r2"
        by (simp_all add: write_name_file_def)
      with 1 assms(2) show ?thesis by auto
    next
      case (Some path)
      with w have "res = None"
        "r' = ?r2\<lparr>name_file_text := Some (wheelname m),
                 events := events ?r2 @ [WriteNameFile (wheelname m)]\<rparr>"
        by (simp_all add: write_name_file_def)
      with 1 show ?thesis by auto
    qed
  qed
qed

text \<open>
  Whether the close of the archive fails has no influence on what happens before it: a run
  that succeeds where the close succeeds does the same where the close raises, and then
  fails with the exception of the close.
\<close>

lemma add_leaf_close_error: "add_leaf (E\<lparr>close_error := x\<rparr>) w p c = add_leaf E w p c"
  by (simp add: add_leaf_def arcname_from_def zipinfo_def separators_def serialize_digest_def)

lemma add_node_close_error:
  "add_node (E\<lparr>close_error := x\<rparr>) p n w = add_node E p n w"
  "add_children (E\<lparr>close_error := x\<rparr>) p cs w = add_children E p cs w"
  by (induction E p n w and E p cs w rule: add_node_add_children.induct)
     (simp_all add: add_leaf_close_error)

lemma add_file_close_error: "add_file (E\<lparr>close_error := x\<rparr>) = add_file E"
  unfolding add_file_def add_node_close_error by simp

lemma add_string_close_error: "add_string (E\<lparr>close_error := x\<rparr>) = add_string E"
  by (intro ext) (simp add: add_string_def zipinfo_def separators_def serialize_digest_def)

lemma read_text_close_error: "read_text (E\<lparr>close_error := x\<rparr>) = read_text E"
  by (intro ext) (simp add: read_text_def)

lemma Version_close_error: "Version (E\<lparr>close_error := x\<rparr>) = Version E"
  by simp

lemma add_metadata_close_error: "add_metadata (E\<lparr>close_error := x\<rparr>) = add_metadata E"
  by (intro ext)
     (simp add: add_metadata_def metadata_contents_def compile_repl_def add_string_close_error)

lemma maker_add_file_close_error:
  "maker_add_file (E\<lparr>close_error := x\<rparr>) = maker_add_file E"
  by (intro ext) (simp add: maker_add_file_def add_file_close_error)

lemma add_metadata_step_close_error:
  "add_metadata_step (E\<lparr>close_error := x\<rparr>) = add_metadata_step E"
  unfolding add_metadata_step_def read_text_close_error add_metadata_close_error
    Version_close_error
  by (rule refl)

lemma extra_distinfo_step_close_error:
  "extra_distinfo_step (E\<lparr>close_error := x\<rparr>) = extra_distinfo_step E"
  unfolding extra_distinfo_step_def maker_add_file_close_error by (rule refl)

lemma body_close_error: "body (E\<lparr>close_error := x\<rparr>) = body E"
  by (intro ext)
     (simp only: body_def maker_add_file_close_error add_wheelfile_def add_string_close_error
        add_recordfile_def add_metadata_step_close_error extra_distinfo_step_close_error)

lemma WheelMaker_close_error: "WheelMaker (E\<lparr>close_error := x\<rparr>) = WheelMaker E"
  unfolding WheelMaker_def Version_close_error by (rule refl)

lemma enter_close_error: "enter (E\<lparr>close_error := x\<rparr>) = enter E"
  by (intro ext) (simp add: enter_def WhlFile_def path_name_def is_sep_def)

lemma main_close_error:
  assumes "main E A = (None, Some r)"
  shows "main (E\<lparr>close_error := Some e\<rparr>) A = (Some e, Some r)"
proof -
  from assms obtain files m r1 where
    f: "get_files_to_package (map (split (CHR '';'')) (arg_input_file A)) = Inr files"
    and m: "WheelMaker E (arg_name A) (arg_version A) (arg_build_tag A) (arg_python_tag A)
                  (arg_abi A) (arg_platform A) (arg_out A) (arg_strip_path_prefix A)
                  (\<not> arg_noincompatible_normalize_name A)
                  (\<not> arg_noincompatible_normalize_version A) = Inr m"
    and b: "body E A m (sort files) \<lparr>archive = enter E m, name_file_text = None,
                        events = [Open (maker_filename m)]\<rparr> = (None, r1)"
    and r: "r = snd (exit E r1)"
    by (auto simp: main_def exit_def split: sum.splits prod.splits option.splits)
  show ?thesis
    by (simp add: main_def f WheelMaker_close_error m body_close_error enter_close_error b
          exit_def r)
qed

text \<open>
  C2, as amended. The name file is written inside the \<open>with\<close> statement, as its last
  step, while the archive is still open: in every run that opens the archive, the close of
  the archive is the last effect of the run and happens once. When the name file has been
  written, every step of the body has succeeded, the write comes directly after the
  manifest has been added and directly before the close, and the outcome of the run is
  the outcome of the close: a close that raises fails the run after the name file has
  been written. When the name file has not been written, the run has failed.
\<close>

theorem name_file_is_written_before_close:
  assumes "main E A = (res, Some r)"
  shows "closed (archive r)
         \<and> (\<exists>evs. events r = evs @ [Close] \<and> Close \<notin> set evs
               \<and> (case name_file_text r of
                     None \<Rightarrow> res \<noteq> None \<and> (\<forall>n. WriteNameFile n \<notin> set evs)
                   | Some n \<Rightarrow>
                       res = close_error E
                       \<and> (\<exists>evs'. evs = evs' @ [AddRecordfile, WriteNameFile n]
                                   \<and> (\<forall>n'. WriteNameFile n' \<notin> set evs'))))"
proof -
  from assms obtain files m res1 r1 where
    b: "body E A m (sort files) \<lparr>archive = enter E m, name_file_text = None,
                        events = [Open (maker_filename m)]\<rparr> = (res1, r1)"
    and r: "r = snd (exit E r1)"
    and res: "res = (case close_error E of None \<Rightarrow> res1 | Some e \<Rightarrow> Some e)"
    by (auto simp: main_def exit_def split: sum.splits prod.splits option.splits)
  from body_events [OF b] obtain evs where
    e: "events r1 = [Open (maker_filename m)] @ evs" "Close \<notin> set evs"
      "(case name_file_text r1 of
                 None \<Rightarrow> res1 \<noteq> None \<and> (\<forall>n. WriteNameFile n \<notin> set evs)
               | Some n \<Rightarrow>
                   res1 = None
                   \<and> (\<exists>evs'. evs = evs' @ [AddRecordfile, WriteNameFile n]
                               \<and> (\<forall>n'. WriteNameFile n' \<notin> set evs')))"
    by auto
  let ?evs = "Open (maker_filename m) # evs"
  have 1: "events r = ?evs @ [Close]" and 2: "Close \<notin> set ?evs"
    and 3: "name_file_text r = name_file_text r1" and 4: "closed (archive r)"
    using e by (simp_all add: r exit_def)
  have 5: "(case name_file_text r of
                 None \<Rightarrow> res \<noteq> None \<and> (\<forall>n. WriteNameFile n \<notin> set ?evs)
               | Some n \<Rightarrow>
                   res = close_error E
                   \<and> (\<exists>evs'. ?evs = evs' @ [AddRecordfile, WriteNameFile n]
                               \<and> (\<forall>n'. WriteNameFile n' \<notin> set evs')))"
  proof (cases "name_file_text r1")
    case None
    with e(3) have "res1 \<noteq> None" "\<forall>n. WriteNameFile n \<notin> set evs" by simp_all
    then have "res \<noteq> None" "\<forall>n. WriteNameFile n \<notin> set ?evs"
      by (simp_all add: res split: option.splits)
    with None 3 show ?thesis by simp
  next
    case (Some n)
    with e(3) obtain evs' where n: "res1 = None" "evs = evs' @ [AddRecordfile, WriteNameFile n]"
      "\<forall>n'. WriteNameFile n' \<notin> set evs'" by auto
    then have "?evs = (Open (maker_filename m) # evs') @ [AddRecordfile, WriteNameFile n]"
      "\<forall>n'. WriteNameFile n' \<notin> set (Open (maker_filename m) # evs')" by simp_all
    then have "\<exists>evs'. ?evs = evs' @ [AddRecordfile, WriteNameFile n]
                               \<and> (\<forall>n'. WriteNameFile n' \<notin> set evs')" by blast
    moreover from n(1) have "res = close_error E" by (simp add: res split: option.splits)
    ultimately show ?thesis using Some 3 by simp
  qed
  show ?thesis
    by (intro conjI exI [of _ ?evs]) (fact 4 1 2 5)+
qed

theorem name_file_is_written_before_close_witness:
  "main example_env example_args = (None, Some example_run)
   \<and> closed (archive example_run)
   \<and> name_file_text example_run = Some ''my_pkg-1.0b0-py3-none-any.whl''
   \<and> (\<exists>evs'. events example_run
                = evs' @ [AddRecordfile, WriteNameFile ''my_pkg-1.0b0-py3-none-any.whl'', Close])"
  using name_file_is_written_before_close [OF example_main] example_main
  by (auto simp: example_run_def)

text \<open>
  C2, as stated, fails: in the completed example run the name file is written before the
  archive is closed, not after; and where the close of the archive raises, the run fails
  although the name file has been written.
\<close>

theorem name_file_written_while_archive_open:
  "main example_env example_args = (None, Some example_run)
   \<and> events example_run
       = [Open ''my_pkg-1.0b0-py3-none-any.whl'', AddFile ''a/b/c.txt'', AddWheelfile, AddMetadata,
          AddRecordfile, WriteNameFile ''my_pkg-1.0b0-py3-none-any.whl'', Close]
   \<and> main (example_env\<lparr>close_error := Some OSError\<rparr>) example_args
       = (Some OSError, Some example_run)
   \<and> name_file_text example_run = Some ''my_pkg-1.0b0-py3-none-any.whl''"
  using example_main main_close_error [OF example_main, of OSError]
  by (simp add: example_run_def example_events_def)

section \<open>The name lines of the metadata\<close>

text \<open>
  C4, as amended. When \<open>main\<close> builds the metadata member, every line of the raw
  metadata text that starts with \<open>Name: \<close> is replaced by \<open>Name: \<close> followed by the name
  as given on the command line (after stamping), not normalized; here for a name without a
  backslash, which the replacement template of \<open>re.sub\<close> would interpret.
\<close>

theorem every_name_line_gets_the_raw_name:
  assumes "add_metadata_step E A r = (None, r')" and "backslash \<notin> set (arg_name A)"
  shows "\<exists>path metadata description version.
           arg_metadata_file A = Some path \<and> read_text E path = Inr metadata
           \<and> members (archive r')
               = members (archive r)
                 @ [(zipinfo E (archive r) (distinfo_path (archive r) ''METADATA''),
                     join nl (map (\<lambda>line. if startswith line ''Name: ''
                                           then ''Name: '' @ arg_name A else line)
                                  (split (CHR 0x0A) metadata))
                     @ ''Version: '' @ version @ nl @ nl @ description @ nl)]"
proof -
  from assms(1) obtain w' where w': "r' = r\<lparr>archive := w', events := events r @ [AddMetadata]\<rparr>"
    and "(case (if truthy (arg_description_file A)
             then map_sum id Some (read_text E (the (arg_description_file A)))
             else Inr None) of
         Inl e \<Rightarrow> Inl e
       | Inr description \<Rightarrow>
           (case (case arg_metadata_file A of
                    None \<Rightarrow> Inl TypeError
                  | Some path \<Rightarrow> read_text E path) of
              Inl e \<Rightarrow> Inl e
            | Inr metadata \<Rightarrow>
                (case (if arg_noincompatible_normalize_version A then Inr (arg_version A)
                       else normalize_pep440 (Version E) (arg_version A)) of
                   Inl e \<Rightarrow> Inl e
                 | Inr version_in_metadata \<Rightarrow>
                     add_metadata E (archive r) metadata (arg_name A) description
                       version_in_metadata))) = Inr w'"
    by (auto simp: add_metadata_step_def on_archive_def split: sum.splits)
  then obtain path metadata d v where p: "arg_metadata_file A = Some path"
    "read_text E path = Inr metadata"
    and am: "add_metadata E (archive r) metadata (arg_name A) d v = Inr w'"
    by (auto split: sum.splits if_splits option.splits)
  from assms(2) have c: "compile_repl E (''Name: '' @ arg_name A) = Inr (\<lambda>matched. ''Name: '' @ arg_name A)"
    by (auto simp: compile_repl_def backslash_def)
  from am have "w' = add_string E (archive r) (distinfo_path (archive r) ''METADATA'')
      (join nl (map (\<lambda>line. if startswith line ''Name: '' then ''Name: '' @ arg_name A else line)
                                  (split (CHR 0x0A) metadata))
       @ ''Version: '' @ v @ nl @ nl @ (if truthy d then the d else ''UNKNOWN'') @ nl)"
    unfolding add_metadata_def metadata_contents_def c sub_name_lines_def
    by (simp cong: if_cong)
  then show ?thesis using p w' by (simp add: add_string_eq cong: if_cong) blast
qed

lemma example_add_metadata_step:
  "add_metadata_step example_env example_args
     \<lparr>archive = example_archive 2 False, name_file_text = None, events = []\<rparr>
   = (None, \<lparr>archive = example_archive 3 False, name_file_text = None, events = [AddMetadata]\<rparr>)"
  by (simp add: add_metadata_step_def on_archive_def truthy_def example_read example_env_simps
        example_args_simps example_version example_add_metadata)

lemma example_name_lines:
  "join nl (map (\<lambda>line. if startswith line ''Name: '' then ''Name: '' @ ''My.Pkg'' else line)
                (split (CHR 0x0A) example_raw_metadata))
     = ''Name: My.Pkg'' @ nl @ ''Name: My.Pkg'' @ nl"
  by (simp add: example_raw_metadata_def nl_def split_def startswith_def)

theorem every_name_line_gets_the_raw_name_witness:
  "add_metadata_step example_env example_args
     \<lparr>archive = example_archive 2 False, name_file_text = None, events = []\<rparr>
   = (None, \<lparr>archive = example_archive 3 False, name_file_text = None, events = [AddMetadata]\<rparr>)
   \<and> backslash \<notin> set (arg_name example_args)
   \<and> read_text example_env ''META'' = Inr example_raw_metadata
   \<and> example_raw_metadata = ''Name: x'' @ nl @ ''Name: y'' @ nl
   \<and> (\<exists>description version.
         snd (last (members (example_archive 3 False)))
           = ''Name: My.Pkg'' @ nl @ ''Name: My.Pkg'' @ nl
             @ ''Version: '' @ version @ nl @ nl @ description @ nl)"
proof -
  have h: "backslash \<notin> set (arg_name example_args)"
    by (simp add: example_args_simps backslash_def)
  have rd: "read_text example_env ''META'' = Inr example_raw_metadata"
    by (fact example_read)
  from every_name_line_gets_the_raw_name [OF example_add_metadata_step h]
  obtain path metadata description version where
    "arg_metadata_file example_args = Some path" "read_text example_env path = Inr metadata"
    and m: "members (example_archive 3 False)
       = members (example_archive 2 False)
         @ [(zipinfo example_env (example_archive 2 False)
               (distinfo_path (example_archive 2 False) ''METADATA''),
             join nl (map (\<lambda>line. if startswith line ''Name: ''
                                   then ''Name: '' @ arg_name example_args else line)
                          (split (CHR 0x0A) metadata))
             @ ''Version: '' @ version @ nl @ nl @ description @ nl)]"
    by auto
  then have "metadata = example_raw_metadata"
    using rd by (simp add: example_args_simps)
  with m have "snd (last (members (example_archive 3 False)))
           = (''Name: My.Pkg'' @ nl @ ''Name: My.Pkg'' @ nl)
             @ ''Version: '' @ version @ nl @ nl @ description @ nl"
    by (simp only: example_name_lines [symmetric] example_args_simps last_snoc snd_conv)
  then show ?thesis
    using example_add_metadata_step h rd by (auto simp: example_raw_metadata_def)
qed

text \<open>
  C4, as stated, fails: in the example run the raw metadata has the lines \<open>Name: x\<close> and
  \<open>Name: y\<close>; both are rewritten, and to the raw name \<open>My.Pkg\<close>, whose normalized form
  is \<open>my-pkg\<close>.
\<close>

theorem second_name_line_rewritten_with_raw_name:
  "main example_env example_args = (None, Some example_run)
   \<and> arg_name example_args = ''My.Pkg''
   \<and> normalize_package_name ''My.Pkg'' = ''my-pkg''
   \<and> read_text example_env ''META'' = Inr (''Name: x'' @ nl @ ''Name: y'' @ nl)
   \<and> members (archive example_run) ! 2
       = (example_header ''my_pkg-1.0b0.dist-info/METADATA'',
          ''Name: My.Pkg'' @ nl @ ''Name: My.Pkg'' @ nl @ ''Version: 1.0b0'' @ nl @ nl
          @ ''UNKNOWN'' @ nl)"
proof -
  have "normalize_package_name ''My.Pkg'' = ''my-pkg''"
    by code_simp
  then show ?thesis
    using example_main
    by (simp add: example_args_simps example_read example_env_simps example_raw_metadata_def
          example_run_def example_archive_def example_members_def example_metadata_def)
qed

section \<open>Prefix stripping\<close>








section \<open>Idempotence of version normalisation\<close>

text \<open>
  The canonical string of a version parses back to that version: each part of the parser
  reads the part of the string that \<open>str\<close> has printed for it and leaves the rest.
\<close>

subsection \<open>Numbers and the parts of a version\<close>




























subsection \<open>What the parser returns is well formed\<close>










subsection \<open>The canonical string parses back\<close>




















section \<open>The legacy escape\<close>

text \<open>
  C9. The claim is that \<open>escape_filename_segment\<close> replaces every maximal run of
  characters outside \<open>[A-Za-z0-9._]\<close> by one underscore, however many runs there are. The
  code passes \<open>re.UNICODE\<close> where \<open>re.sub\<close> expects \<open>count\<close>, so only the first 32 runs
  are replaced: in a string of 33 hyphens, each followed by a letter, the last hyphen
  stays.
\<close>

theorem escape_filename_segment_stops_after_32_runs:
  "escape_filename_segment (concat (replicate 33 ''-a'')) = concat (replicate 32 ''_a'') @ ''-a''"
  by code_simp

end
